theory Spec2Isabelle
  imports Complex_Main "HOL-Library.Word"
begin

unbundle bit_operations_syntax

section \<open>The simulation bridge of \<open>epanet.py\<close>\<close>

text \<open>
  The script talks to two external collaborators: a Modbus TCP client (pymodbus) and
  the hydraulic engine (epyt). Neither is part of the script, so both are modelled as
  an environment that answers each call. The program itself is a function from the
  trace of events so far to an outcome and the extended trace.
\<close>

subsection \<open>Exceptions and events\<close>

text \<open>
  What a call into a collaborator can raise: an ordinary \<open>Exception\<close> with its message,
  or \<open>KeyboardInterrupt\<close> delivered while the call blocks.
\<close>

datatype fault = Error string | Interrupt

text \<open>
  The exceptions in flight inside the script. \<open>sys.exit(c)\<close> raises \<open>SystemExit c\<close>,
  which \<open>except Exception\<close> does not catch.
\<close>

datatype exc = Exception string | KeyboardInterrupt | SystemExit int

fun raise_fault :: "fault \<Rightarrow> exc" where
  "raise_fault (Error s) = Exception s"
| "raise_fault Interrupt = KeyboardInterrupt"

text \<open>
  One event per observable action of the script: a line printed, or a call of a method
  of the client, of the engine or of \<open>time\<close>, with the arguments the script passes.
\<close>

datatype event =
    Print string
  | PrintCount string int
  | ModbusTcpClient string nat
  | Connect
  | Sleep nat
  | Close
  | ReadCoils nat nat
  | ReadHoldingRegisters nat nat
  | WriteRegisters nat "16 word list"
  | Epanet string
  | SetTimeSimulationDuration int
  | SetTimeHydraulicStep int
  | GetTimeSimulationDuration
  | GetTimeHydraulicStep
  | GetNodeJunctionCount
  | GetNodeReservoirCount
  | GetNodeTankCount
  | GetLinkPipeCount
  | GetLinkPumpCount
  | GetLinkValveCount
  | OpenHydraulicAnalysis
  | InitializeHydraulicAnalysis
  | RunHydraulicAnalysis
  | NextHydraulicAnalysisStep
  | CloseHydraulicAnalysis
  | Unload
  | GetLinkPipeIndex
  | GetLinkPumpIndex
  | GetNodeJunctionIndex
  | GetNodeTankIndex
  | SetLinkStatus int int
  | SetLinkSettings int real
  | GetNodePressure int
  | GetNodeHydraulicHead int
  | GetLinkFlows int

subsection \<open>The environment\<close>

text \<open>
  The collaborators are deterministic in the history: the answer to a call is a function
  of the events before it and of the call. The answers are grouped by the type of value
  the script uses: nothing (\<open>ret_none\<close>: constructors, setters, \<open>sleep\<close>, \<open>close\<close>,
  \<open>write_registers\<close>, the analysis steps), a truth value (\<open>connect\<close>), an integer (times
  and counts), a float (pressure, head, flow), the \<open>bits\<close> of a coil response, the
  \<open>registers\<close> of a register response, and a list of asset indices.
  \<open>convert_to_registers\<close> is the client's conversion with \<open>DATATYPE.FLOAT32\<close>.
\<close>

record env =
  ret_none :: "event list \<Rightarrow> event \<Rightarrow> fault + unit"
  ret_bool :: "event list \<Rightarrow> event \<Rightarrow> fault + bool"
  ret_int :: "event list \<Rightarrow> event \<Rightarrow> fault + int"
  ret_float :: "event list \<Rightarrow> event \<Rightarrow> fault + real"
  ret_bits :: "event list \<Rightarrow> event \<Rightarrow> fault + bool list"
  ret_registers :: "event list \<Rightarrow> event \<Rightarrow> fault + 16 word list"
  ret_indices :: "event list \<Rightarrow> event \<Rightarrow> fault + int list"
  convert_to_registers :: "real \<Rightarrow> fault + 16 word list"

subsection \<open>Programs over the trace\<close>

datatype 'a outcome = Return 'a | Raise exc | OutOfFuel

type_synonym 'a prog = "event list \<Rightarrow> 'a outcome \<times> event list"

definition return :: "'a \<Rightarrow> 'a prog" where
  "return x t = (Return x, t)"

definition bind :: "'a prog \<Rightarrow> ('a \<Rightarrow> 'b prog) \<Rightarrow> 'b prog" where
  "bind m f t =
     (case m t of
        (Return x, t') \<Rightarrow> f x t'
      | (Raise e, t') \<Rightarrow> (Raise e, t')
      | (OutOfFuel, t') \<Rightarrow> (OutOfFuel, t'))"

text \<open>A call: the environment answers from the history, and the call is logged.\<close>

definition perform :: "(event list \<Rightarrow> event \<Rightarrow> fault + 'a) \<Rightarrow> event \<Rightarrow> 'a prog" where
  "perform answer ev t =
     (case answer t ev of
        Inr x \<Rightarrow> (Return x, t @ [ev])
      | Inl f \<Rightarrow> (Raise (raise_fault f), t @ [ev]))"

text \<open>A call that touches no collaborator state and is not logged.\<close>

definition pure_call :: "fault + 'a \<Rightarrow> 'a prog" where
  "pure_call r t = (case r of Inr x \<Rightarrow> (Return x, t) | Inl f \<Rightarrow> (Raise (raise_fault f), t))"

definition print :: "string \<Rightarrow> unit prog" where
  "print s t = (Return (), t @ [Print s])"

definition sys_exit :: "int \<Rightarrow> 'a prog" where
  "sys_exit c t = (Raise (SystemExit c), t)"

text \<open>
  The wrapper every function of the script has:
  \<^verbatim>\<open>try: ... except Exception as e: print(f"<msg>: {e}"); sys.exit(1)\<close>
\<close>

definition except_exit :: "string \<Rightarrow> 'a prog \<Rightarrow> 'a prog" where
  "except_exit msg m t =
     (case m t of
        (Raise (Exception e), t') \<Rightarrow> bind (print (msg @ e)) (\<lambda>_. sys_exit 1) t'
      | r \<Rightarrow> r)"

text \<open>A \<open>for\<close> loop over a list whose body returns nothing.\<close>

fun for_each :: "('a \<Rightarrow> unit prog) \<Rightarrow> 'a list \<Rightarrow> unit prog" where
  "for_each body [] = return ()"
| "for_each body (x # xs) = bind (body x) (\<lambda>_. for_each body xs)"

text \<open>A list comprehension whose element expression calls a collaborator.\<close>

fun collect :: "('a \<Rightarrow> 'b prog) \<Rightarrow> 'a list \<Rightarrow> 'b list prog" where
  "collect f [] = return []"
| "collect f (x # xs) = bind (f x) (\<lambda>y. bind (collect f xs) (\<lambda>ys. return (y # ys)))"

subsection \<open>\<open>get_controls\<close>\<close>

record controls =
  pipe_statuses :: "int list"
  pump_settings :: "real list"

text \<open>\<^verbatim>\<open>i ^ 1\<close> on a coil bit (a Python \<open>bool\<close>, which is an \<open>int\<close>).\<close>

definition decode_pipe_status :: "bool \<Rightarrow> int" where
  "decode_pipe_status i = of_bool i XOR 1"

text \<open>
  A Python float is modelled by the real number it holds. Arithmetic on floats is the
  exact operation followed by rounding to the nearest double (IEEE 754 binary64: a
  significand of 53 bits, ties to the even significand).

  \<open>exponent a\<close> is the binade of a positive \<open>a\<close>: the \<open>e\<close> with \<open>2^e \<le> a < 2^(e+1)\<close>,
  found by halving or doubling; the bounds 1024 and 1075 cover every double.
  \<open>scale2 z a\<close> is \<open>a\<close> times \<open>2^z\<close>.
\<close>

fun halvings :: "nat \<Rightarrow> real \<Rightarrow> nat" where
  "halvings 0 a = 0"
| "halvings (Suc k) a = (if 2 \<le> a then Suc (halvings k (a / 2)) else 0)"

fun doublings :: "nat \<Rightarrow> real \<Rightarrow> nat" where
  "doublings 0 a = 0"
| "doublings (Suc k) a = (if a < 1 then Suc (doublings k (a * 2)) else 0)"

definition exponent :: "real \<Rightarrow> int" where
  "exponent a = int (halvings 1024 a) - int (doublings 1075 a)"

definition scale2 :: "int \<Rightarrow> real \<Rightarrow> real" where
  "scale2 z a = (if 0 \<le> z then a * 2 ^ nat z else a / 2 ^ nat (- z))"

definition round_half_even :: "real \<Rightarrow> int" where
  "round_half_even x =
     (let f = \<lfloor>x\<rfloor> in
      if x - of_int f < 1 / 2 then f
      else if 1 / 2 < x - of_int f then f + 1
      else if even f then f else f + 1)"

text \<open>
  The double nearest to \<open>x\<close>, for an \<open>x\<close> whose magnitude is in the range of the normal
  doubles: \<open>x\<close> is scaled so that its integer part has 53 bits, rounded to an integer,
  and scaled back.
\<close>

definition nearest_double :: "real \<Rightarrow> real" where
  "nearest_double x =
     (if x = 0 then 0
      else scale2 (exponent \<bar>x\<bar> - 52)
             (of_int (round_half_even (scale2 (52 - exponent \<bar>x\<bar>) x))))"

text \<open>
  \<^verbatim>\<open>i / 100.0\<close> on a holding register: the register value and 100 are doubles that
  hold their values exactly, and the quotient, between 0.01 and 655.35 when it is not 0,
  is rounded to the nearest double.
\<close>

definition decode_pump_setting :: "16 word \<Rightarrow> real" where
  "decode_pump_setting i = nearest_double (real (unat i) / 100)"

definition get_controls :: "env \<Rightarrow> controls prog" where
  "get_controls env =
     except_exit ''Failed to get controls from OpenPLC: ''
       (bind (perform (ret_bits env) (ReadCoils 0 100)) (\<lambda>bits.
        bind (perform (ret_registers env) (ReadHoldingRegisters 0 100)) (\<lambda>registers.
        return \<lparr>pipe_statuses = map decode_pipe_status bits,
                pump_settings = map decode_pump_setting registers\<rparr>)))"

subsection \<open>\<open>parse_arguments\<close>\<close>

text \<open>\<^verbatim>\<open>s.endswith(suffix)\<close>\<close>

definition endswith :: "string \<Rightarrow> string \<Rightarrow> bool" where
  "endswith s suffix \<longleftrightarrow>
     length suffix \<le> length s \<and> drop (length s - length suffix) s = suffix"

text \<open>
  \<open>argv\<close> is \<open>sys.argv\<close>. The usage line reads \<open>sys.argv[0]\<close>, which raises IndexError
  on an empty list.
\<close>

definition parse_arguments :: "string list \<Rightarrow> string prog" where
  "parse_arguments argv =
     (if length argv \<noteq> 2 \<or> \<not> endswith (argv ! 1) ''.inp'' then
        bind (print ''Run EPANET simulation with Modbus controls.'') (\<lambda>_.
          case argv of
            [] \<Rightarrow> (\<lambda>t. (Raise (Exception ''list index out of range''), t))
          | script # _ \<Rightarrow>
              bind (print (''>>> python '' @ script @ '' [network.inp]'')) (\<lambda>_. sys_exit 1))
      else return (argv ! 1))"

subsection \<open>\<open>setup_client\<close> and \<open>setup_epanet\<close>\<close>

text \<open>
  \<^verbatim>\<open>while not client.connect(): time.sleep(1)\<close>
  The loop has no bound in the source; the fuel bounds the number of attempts the model
  follows, and running out of it is the outcome \<open>OutOfFuel\<close>.
\<close>

fun connect_loop :: "nat \<Rightarrow> env \<Rightarrow> unit prog" where
  "connect_loop 0 env = (\<lambda>t. (OutOfFuel, t))"
| "connect_loop (Suc n) env =
     bind (perform (ret_bool env) Connect) (\<lambda>connected.
       if connected then return ()
       else bind (perform (ret_none env) (Sleep 1)) (\<lambda>_. connect_loop n env))"

definition setup_client :: "nat \<Rightarrow> env \<Rightarrow> unit prog" where
  "setup_client fuel env =
     except_exit ''Failed to setup and establish a Modbus TCP client connection: ''
       (bind (perform (ret_none env) (ModbusTcpClient ''openplc'' 502)) (\<lambda>client.
        connect_loop fuel env))"

definition setup_epanet :: "env \<Rightarrow> string \<Rightarrow> unit prog" where
  "setup_epanet env network_file =
     except_exit ''Failed to setup EPANET with specified network (.inp) file: ''
       (bind (perform (ret_none env) (Epanet network_file)) (\<lambda>en.
        bind (perform (ret_none env) (SetTimeSimulationDuration 10)) (\<lambda>_.
        perform (ret_none env) (SetTimeHydraulicStep 1))))"

subsection \<open>\<open>print_overview\<close>\<close>

text \<open>\<^verbatim>\<open>print(f"<label>{en.getXCount()}")\<close>: the count is read, then the line printed.\<close>

definition print_count :: "env \<Rightarrow> string \<Rightarrow> event \<Rightarrow> unit prog" where
  "print_count env label getter =
     bind (perform (ret_int env) getter) (\<lambda>n t. (Return (), t @ [PrintCount label n]))"

definition print_overview :: "env \<Rightarrow> unit prog" where
  "print_overview env =
     except_exit ''Failed to print overview of total number nodes and links in EPANET network: ''
       (bind (print ''Network Overview:'') (\<lambda>_.
        bind (print (replicate 32 CHR ''-'')) (\<lambda>_.
        bind (print_count env '' junctions : '' GetNodeJunctionCount) (\<lambda>_.
        bind (print_count env ''reservoirs : '' GetNodeReservoirCount) (\<lambda>_.
        bind (print_count env ''     tanks : '' GetNodeTankCount) (\<lambda>_.
        bind (print_count env ''     pipes : '' GetLinkPipeCount) (\<lambda>_.
        bind (print_count env ''     pumps : '' GetLinkPumpCount) (\<lambda>_.
        print_count env ''    valves : '' GetLinkValveCount))))))))"

subsection \<open>\<open>set_controls\<close>\<close>

text \<open>Python's \<open>zip\<close> stops at the shorter argument, as \<^const>\<open>zip\<close> does.\<close>

definition set_controls :: "env \<Rightarrow> controls \<Rightarrow> unit prog" where
  "set_controls env ctl =
     except_exit ''Failed to set OpenPLC controls to EPANET network: ''
       (bind (perform (ret_indices env) GetLinkPipeIndex) (\<lambda>pipes.
        bind (for_each (\<lambda>(i, status). perform (ret_none env) (SetLinkStatus i status))
               (zip pipes (pipe_statuses ctl))) (\<lambda>_.
        bind (perform (ret_indices env) GetLinkPumpIndex) (\<lambda>pumps.
        for_each (\<lambda>(i, setting). perform (ret_none env) (SetLinkSettings i setting))
          (zip pumps (pump_settings ctl))))))"

subsection \<open>\<open>read_data\<close> and \<open>write_data\<close>\<close>

record telemetry =
  junction_pressures :: "real list"
  tank_heads :: "real list"
  pump_flows :: "real list"

definition read_data :: "env \<Rightarrow> telemetry prog" where
  "read_data env =
     except_exit ''Failed to read data from EPANET network: ''
       (bind (perform (ret_indices env) GetNodeJunctionIndex) (\<lambda>junctions.
        bind (collect (\<lambda>i. perform (ret_float env) (GetNodePressure i)) junctions) (\<lambda>ps.
        bind (perform (ret_indices env) GetNodeTankIndex) (\<lambda>tanks.
        bind (collect (\<lambda>i. perform (ret_float env) (GetNodeHydraulicHead i)) tanks) (\<lambda>hs.
        bind (perform (ret_indices env) GetLinkPumpIndex) (\<lambda>pumps.
        bind (collect (\<lambda>i. perform (ret_float env) (GetLinkFlows i)) pumps) (\<lambda>fs.
        return \<lparr>junction_pressures = ps, tank_heads = hs, pump_flows = fs\<rparr>)))))))"

text \<open>
  One loop of \<open>write_data\<close>:
  \<^verbatim>\<open>for i, value in enumerate(values):
      registers = client.convert_to_registers(value, client.DATATYPE.FLOAT32)
      client.write_registers(base + i * 2, registers)\<close>
\<close>

definition write_block :: "env \<Rightarrow> nat \<Rightarrow> real list \<Rightarrow> unit prog" where
  "write_block env base values =
     for_each (\<lambda>(i, value).
         bind (pure_call (convert_to_registers env value)) (\<lambda>registers.
         perform (ret_none env) (WriteRegisters (base + i * 2) registers)))
       (enumerate 0 values)"

definition write_data :: "env \<Rightarrow> telemetry \<Rightarrow> unit prog" where
  "write_data env data =
     except_exit ''Failed to write EPANET network data to OpenPLC: ''
       (bind (write_block env 100 (junction_pressures data)) (\<lambda>_.
        bind (write_block env 200 (tank_heads data)) (\<lambda>_.
        write_block env 300 (pump_flows data))))"

subsection \<open>\<open>main\<close>\<close>

text \<open>The body of \<^verbatim>\<open>while True:\<close>, one cycle.\<close>

definition cycle :: "env \<Rightarrow> unit prog" where
  "cycle env =
     bind (perform (ret_int env) GetTimeSimulationDuration) (\<lambda>duration.
     bind (perform (ret_int env) GetTimeHydraulicStep) (\<lambda>step.
     bind (perform (ret_none env) (SetTimeSimulationDuration (duration + step))) (\<lambda>_.
     bind (get_controls env) (\<lambda>ctl.
     bind (set_controls env ctl) (\<lambda>_.
     bind (perform (ret_none env) RunHydraulicAnalysis) (\<lambda>_.
     bind (read_data env) (\<lambda>data.
     bind (write_data env data) (\<lambda>_.
     bind (perform (ret_none env) NextHydraulicAnalysisStep) (\<lambda>_.
     perform (ret_none env) (Sleep 1))))))))))"

text \<open>\<^verbatim>\<open>while True:\<close> has no exit but an exception; the fuel counts cycles.\<close>

fun main_loop :: "nat \<Rightarrow> env \<Rightarrow> unit prog" where
  "main_loop 0 env = (\<lambda>t. (OutOfFuel, t))"
| "main_loop (Suc n) env = bind (cycle env) (\<lambda>_. main_loop n env)"

text \<open>The statements of the \<open>try\<close> block after \<open>client\<close> and \<open>en\<close> are bound.\<close>

definition running :: "nat \<Rightarrow> env \<Rightarrow> unit prog" where
  "running fuel env =
     bind (print_overview env) (\<lambda>_.
     bind (perform (ret_none env) OpenHydraulicAnalysis) (\<lambda>_.
     bind (perform (ret_none env) InitializeHydraulicAnalysis) (\<lambda>_.
     main_loop fuel env)))"

text \<open>
  The \<open>try\<close> block. Besides the outcome it reports which of the local names \<open>client\<close>
  and \<open>en\<close> were bound when it ended, which is what \<^verbatim>\<open>'client' in locals()\<close> and
  \<^verbatim>\<open>'en' in locals()\<close> test in the \<open>finally\<close> block.
\<close>

definition try_block ::
  "nat \<Rightarrow> env \<Rightarrow> string \<Rightarrow> event list \<Rightarrow> (unit outcome \<times> bool \<times> bool) \<times> event list" where
  "try_block fuel env network_file t =
     (case setup_client fuel env t of
        (Return client, t1) \<Rightarrow>
          (case setup_epanet env network_file t1 of
             (Return en, t2) \<Rightarrow>
               (case running fuel env t2 of (r, t3) \<Rightarrow> ((r, True, True), t3))
           | (r, t2) \<Rightarrow> ((r, True, False), t2))
      | (r, t1) \<Rightarrow> ((r, False, False), t1))"

text \<open>The two \<open>except\<close> clauses of \<open>main\<close>.\<close>

fun handlers :: "unit outcome \<Rightarrow> unit prog" where
  "handlers (Raise KeyboardInterrupt) =
     bind (print ''>--- Program interrupted by user ---'') (\<lambda>_. sys_exit 0)"
| "handlers (Raise (Exception e)) =
     bind (print (''Failed to run EPANET simulation due to an unexpected error: '' @ e))
       (\<lambda>_. sys_exit 1)"
| "handlers r = (\<lambda>t. (r, t))"

text \<open>The \<open>finally\<close> block. Nothing in it catches an exception.\<close>

definition finally_block :: "env \<Rightarrow> bool \<Rightarrow> bool \<Rightarrow> unit prog" where
  "finally_block env client_bound en_bound =
     bind (if client_bound then perform (ret_none env) Close else return ()) (\<lambda>_.
     if en_bound then
       bind (perform (ret_none env) CloseHydraulicAnalysis) (\<lambda>_.
       perform (ret_none env) Unload)
     else return ())"

text \<open>
  \<open>try\<close>/\<open>except\<close>/\<open>finally\<close>: the handlers run on what the block raised, then the
  \<open>finally\<close> block; an exception raised there replaces the one in flight.
\<close>

definition try_statement :: "nat \<Rightarrow> env \<Rightarrow> string \<Rightarrow> unit prog" where
  "try_statement fuel env network_file t =
     (case try_block fuel env network_file t of
        ((OutOfFuel, _, _), t1) \<Rightarrow> (OutOfFuel, t1)
      | ((r, client_bound, en_bound), t1) \<Rightarrow>
          (case handlers r t1 of
             (r', t2) \<Rightarrow>
               (case finally_block env client_bound en_bound t2 of
                  (Return _, t3) \<Rightarrow> (r', t3)
                | (r'', t3) \<Rightarrow> (r'', t3))))"

definition main :: "nat \<Rightarrow> string list \<Rightarrow> env \<Rightarrow> unit prog" where
  "main fuel argv env =
     bind (parse_arguments argv) (\<lambda>network_file. try_statement fuel env network_file)"

text \<open>
  The exit status of the process, from how \<open>main\<close> ended: \<open>SystemExit c\<close> gives \<open>c\<close>, an
  uncaught exception makes the interpreter exit with 1 (130 for \<open>KeyboardInterrupt\<close>,
  by the shell's convention for SIGINT).
\<close>

fun exit_status :: "unit outcome \<Rightarrow> int option" where
  "exit_status (Return _) = Some 0"
| "exit_status (Raise (SystemExit c)) = Some c"
| "exit_status (Raise (Exception e)) = Some 1"
| "exit_status (Raise KeyboardInterrupt) = Some 130"
| "exit_status OutOfFuel = None"

section \<open>Properties\<close>

subsection \<open>Observations on traces\<close>

text \<open>The engine calls that apply a control value, and those that read telemetry.\<close>

fun is_control_write :: "event \<Rightarrow> bool" where
  "is_control_write (SetLinkStatus i s) = True"
| "is_control_write (SetLinkSettings i v) = True"
| "is_control_write e = False"

fun is_telemetry_read :: "event \<Rightarrow> bool" where
  "is_telemetry_read (GetNodePressure i) = True"
| "is_telemetry_read (GetNodeHydraulicHead i) = True"
| "is_telemetry_read (GetLinkFlows i) = True"
| "is_telemetry_read e = False"

fun is_register_write :: "event \<Rightarrow> bool" where
  "is_register_write (WriteRegisters a registers) = True"
| "is_register_write e = False"

text \<open>
  A program emits only events of a class when, from every trace, it extends the trace
  by events of that class and leaves the earlier events alone.
\<close>

definition emits :: "(event \<Rightarrow> bool) \<Rightarrow> 'a prog \<Rightarrow> bool" where
  "emits P m \<longleftrightarrow> (\<forall>t. \<exists>evs. snd (m t) = t @ evs \<and> list_all P evs)"

subsection \<open>Example environments\<close>

text \<open>
  A network with two pipes and one pump whose controller holds coil bits 1, 0 and
  holding registers 150, 50; every call succeeds. The conversion to registers is the
  float32 one on 0.0 and 1.0 (\<open>0x3F80, 0x0000\<close>) and yields zeros elsewhere.
\<close>

definition scenario_a :: env where
  "scenario_a =
     \<lparr>ret_none = (\<lambda>h e. Inr ()),
      ret_bool = (\<lambda>h e. Inr True),
      ret_int = (\<lambda>h e. Inr 1),
      ret_float = (\<lambda>h e. Inr 0),
      ret_bits = (\<lambda>h e. Inr [True, False]),
      ret_registers = (\<lambda>h e. Inr [150, 50]),
      ret_indices = (\<lambda>h e. Inr (if e = GetLinkPipeIndex then [1, 2]
                                 else if e = GetLinkPumpIndex then [3]
                                 else if e = GetNodeJunctionIndex then [1, 2]
                                 else [3])),
      convert_to_registers = (\<lambda>v. Inr (if v = 1 then [16256, 0] else [0, 0]))\<rparr>"

text \<open>
  A client that unpacks the 13 payload bytes of a 100-coil response into 104 bits, and
  returns 100 registers.
\<close>

definition byte_padded :: env where
  "byte_padded =
     scenario_a\<lparr>ret_bits := (\<lambda>h e. Inr (replicate 104 False)),
                ret_registers := (\<lambda>h e. Inr (replicate 100 100))\<rparr>"

text \<open>The events of \<open>k\<close> failed connection attempts, each followed by the one-second sleep.\<close>

definition attempts :: "nat \<Rightarrow> event list" where
  "attempts k = concat (replicate k [Connect, Sleep 1])"

text \<open>An endpoint that refuses the first \<open>n\<close> connection attempts and accepts the next.\<close>

definition flaky_endpoint :: "nat \<Rightarrow> env" where
  "flaky_endpoint n = scenario_a\<lparr>ret_bool := (\<lambda>h e. Inr (n \<le> count_list h Connect))\<rparr>"

subsection \<open>Wire addresses\<close>

text \<open>
  Coils and holding registers are separate address tables of the protocol. The footprint
  of a call is the addresses it reads or writes: \<open>count\<close> addresses from the start
  address for a read, one address per register passed for \<open>write_registers\<close>.
\<close>

datatype table = Coils | HoldingRegisters

fun footprint :: "event \<Rightarrow> (table \<times> nat) list" where
  "footprint (ReadCoils a c) = map (Pair Coils) [a..<a + c]"
| "footprint (ReadHoldingRegisters a c) = map (Pair HoldingRegisters) [a..<a + c]"
| "footprint (WriteRegisters a registers) = map (Pair HoldingRegisters) [a..<a + length registers]"
| "footprint e = []"

definition footprints :: "event list \<Rightarrow> (table \<times> nat) set" where
  "footprints evs = set (concat (map footprint evs))"

text \<open>
  The events \<open>evs\<close> write the values \<open>vals\<close> as one block: the \<open>i\<close>-th event writes the
  registers converted from the \<open>i\<close>-th value, starting at register \<open>base + 2 * i\<close>.
\<close>

definition block_written :: "env \<Rightarrow> nat \<Rightarrow> real list \<Rightarrow> event list \<Rightarrow> bool" where
  "block_written env base vals evs \<longleftrightarrow>
     length evs = length vals \<and>
     (\<forall>i<length vals. \<exists>registers.
        convert_to_registers env (vals ! i) = Inr registers \<and>
        evs ! i = WriteRegisters (base + 2 * i) registers)"

text \<open>
  Modelled from the spec: the client's conversion of a float to registers with
  \<open>DATATYPE.FLOAT32\<close> is library code that the script calls and does not contain; the
  spec has it as an IEEE-754 32-bit float across two consecutive 16-bit registers.
  \<open>float32_bits\<close> rounds the double to the nearest binary32 value (a significand of 24
  bits, ties to even, multiples of \<open>2^-149\<close> below \<open>2^-126\<close>) and gives its 32 bits as
  a number: the sign, 8 bits of exponent biased by 127, 23 bits of fraction. A magnitude
  that rounds beyond the largest binary32 value is an error. \<open>float32_registers\<close> splits
  the 32 bits into two registers, the high-order half first, which is the byte order of
  the protocol.
\<close>

definition float32_bits :: "real \<Rightarrow> fault + nat" where
  "float32_bits v =
     (let a = \<bar>v\<bar>;
          e = exponent a;
          magnitude =
            (if v = 0 then 0
             else if e < - 126 then nat (round_half_even (scale2 149 a))
             else nat ((e + 126) * 2 ^ 23 + round_half_even (scale2 (23 - e) a)))
      in if 2139095040 \<le> magnitude
         then Inl (Error ''float too large to pack with f format'')
         else Inr (if v < 0 then 2147483648 + magnitude else magnitude))"

definition float32_registers :: "real \<Rightarrow> fault + 16 word list" where
  "float32_registers v =
     (case float32_bits v of
        Inl f \<Rightarrow> Inl f
      | Inr bits \<Rightarrow> Inr [of_nat (bits div 65536), of_nat (bits mod 65536)])"

text \<open>
  The events \<open>evs\<close> write one telemetry block: the \<open>i\<close>-th event writes, from register
  \<open>base + 2 * i\<close> on, the two float32 registers of the value that the engine returns
  for the \<open>i\<close>-th asset when asked in the order of \<open>assets\<close> after the history \<open>h\<close>.
\<close>

definition telemetry_block ::
  "env \<Rightarrow> event list \<Rightarrow> (int \<Rightarrow> event) \<Rightarrow> int list \<Rightarrow> nat \<Rightarrow> event list \<Rightarrow> bool" where
  "telemetry_block env h getter assets base evs \<longleftrightarrow>
     length evs = length assets \<and>
     (\<forall>i<length assets. \<exists>v hi lo.
        ret_float env (h @ map getter (take i assets)) (getter (assets ! i)) = Inr v \<and>
        float32_registers v = Inr [hi, lo] \<and>
        evs ! i = WriteRegisters (base + 2 * i) [hi, lo])"

text \<open>
  The network of \<open>scenario_a\<close> with pressure 1.0 at junction 1 and 0.0 elsewhere, and a
  client whose conversion is the float32 one.
\<close>

definition float32_client :: env where
  "float32_client =
     scenario_a\<lparr>ret_float := (\<lambda>h e. Inr (if e = GetNodePressure 1 then 1 else 0)),
                convert_to_registers := float32_registers\<rparr>"

text \<open>Telemetry of two junctions, one tank and one pump.\<close>

definition sample_data :: telemetry where
  "sample_data = \<lparr>junction_pressures = [1, 0], tank_heads = [0], pump_flows = [1]\<rparr>"

text \<open>Telemetry of a network with 51 junctions and one tank.\<close>

definition data_51_junctions :: telemetry where
  "data_51_junctions =
     \<lparr>junction_pressures = replicate 51 1, tank_heads = [0], pump_flows = []\<rparr>"

subsection \<open>The order of a cycle\<close>

text \<open>
  A check of the events of one cycle, with the flag telling whether the hydraulic step
  has been invoked: the step is invoked at most once, a control value is applied only
  before it and telemetry is read only after it.
\<close>

fun cycle_order :: "bool \<Rightarrow> event list \<Rightarrow> bool" where
  "cycle_order stepped [] = True"
| "cycle_order stepped (e # es) =
     (if e = RunHydraulicAnalysis then \<not> stepped \<and> cycle_order True es
      else if is_control_write e then \<not> stepped \<and> cycle_order stepped es
      else if is_telemetry_read e then stepped \<and> cycle_order stepped es
      else cycle_order stepped es)"

text \<open>The statements of a cycle before and after \<^verbatim>\<open>en.runHydraulicAnalysis()\<close>.\<close>

definition controls_phase :: "env \<Rightarrow> unit prog" where
  "controls_phase env =
     bind (perform (ret_int env) GetTimeSimulationDuration) (\<lambda>duration.
     bind (perform (ret_int env) GetTimeHydraulicStep) (\<lambda>step.
     bind (perform (ret_none env) (SetTimeSimulationDuration (duration + step))) (\<lambda>_.
     bind (get_controls env) (\<lambda>ctl.
     set_controls env ctl))))"

definition telemetry_phase :: "env \<Rightarrow> unit prog" where
  "telemetry_phase env =
     bind (read_data env) (\<lambda>data.
     bind (write_data env data) (\<lambda>_.
     bind (perform (ret_none env) NextHydraulicAnalysisStep) (\<lambda>_.
     perform (ret_none env) (Sleep 1))))"

definition before_step :: "event \<Rightarrow> bool" where
  "before_step e \<longleftrightarrow> \<not> is_telemetry_read e \<and> e \<noteq> RunHydraulicAnalysis"

definition after_step :: "event \<Rightarrow> bool" where
  "after_step e \<longleftrightarrow> \<not> is_control_write e \<and> e \<noteq> RunHydraulicAnalysis"

subsection \<open>Shutdown\<close>

text \<open>The calls of the \<open>finally\<close> block, in order, for the names that are bound.\<close>

definition draining_calls :: "bool \<Rightarrow> bool \<Rightarrow> event list" where
  "draining_calls client_bound en_bound =
     (if client_bound then [Close] else []) @
     (if en_bound then [CloseHydraulicAnalysis, Unload] else [])"

fun is_draining_call :: "event \<Rightarrow> bool" where
  "is_draining_call Close = True"
| "is_draining_call CloseHydraulicAnalysis = True"
| "is_draining_call Unload = True"
| "is_draining_call e = False"

text \<open>A program that, when it exits, exits with status 1.\<close>

definition exits_with_1 :: "'a prog \<Rightarrow> bool" where
  "exits_with_1 m \<longleftrightarrow> (\<forall>t c. fst (m t) = Raise (SystemExit c) \<longrightarrow> c = 1)"

text \<open>
  The user interrupts the sleep at the end of the first cycle; every other call
  succeeds.
\<close>

definition interrupted :: env where
  "interrupted =
     scenario_a\<lparr>ret_none := (\<lambda>h e.
        if e = Sleep 1 \<and> RunHydraulicAnalysis \<in> set h then Inl Interrupt else Inr ())\<rparr>"

text \<open>The same interrupt, after which closing the client raises.\<close>

definition interrupted_close_fails :: env where
  "interrupted_close_fails =
     scenario_a\<lparr>ret_none := (\<lambda>h e.
        if e = Sleep 1 \<and> RunHydraulicAnalysis \<in> set h then Inl Interrupt
        else if e = Close then Inl (Error ''connection reset'')
        else Inr ())\<rparr>"

text \<open>The same interrupt, after which closing the hydraulic analysis raises.\<close>

definition interrupted_teardown_fails :: env where
  "interrupted_teardown_fails =
     scenario_a\<lparr>ret_none := (\<lambda>h e.
        if e = Sleep 1 \<and> RunHydraulicAnalysis \<in> set h then Inl Interrupt
        else if e = CloseHydraulicAnalysis then Inl (Error ''engine error'')
        else Inr ())\<rparr>"

text \<open>The events of a run that is interrupted in the sleep of its first cycle.\<close>

definition first_cycle_trace :: "event list" where
  "first_cycle_trace =
     [ModbusTcpClient ''openplc'' 502, Connect, Epanet ''network.inp'',
      SetTimeSimulationDuration 10, SetTimeHydraulicStep 1,
      Print ''Network Overview:'', Print (replicate 32 CHR ''-''),
      GetNodeJunctionCount, PrintCount '' junctions : '' 1,
      GetNodeReservoirCount, PrintCount ''reservoirs : '' 1,
      GetNodeTankCount, PrintCount ''     tanks : '' 1,
      GetLinkPipeCount, PrintCount ''     pipes : '' 1,
      GetLinkPumpCount, PrintCount ''     pumps : '' 1,
      GetLinkValveCount, PrintCount ''    valves : '' 1,
      OpenHydraulicAnalysis, InitializeHydraulicAnalysis,
      GetTimeSimulationDuration, GetTimeHydraulicStep, SetTimeSimulationDuration 2,
      ReadCoils 0 100, ReadHoldingRegisters 0 100,
      GetLinkPipeIndex, SetLinkStatus 1 0, SetLinkStatus 2 1,
      GetLinkPumpIndex, SetLinkSettings 3 (3 / 2),
      RunHydraulicAnalysis,
      GetNodeJunctionIndex, GetNodePressure 1, GetNodePressure 2,
      GetNodeTankIndex, GetNodeHydraulicHead 3,
      GetLinkPumpIndex, GetLinkFlows 3,
      WriteRegisters 100 [0, 0], WriteRegisters 102 [0, 0],
      WriteRegisters 200 [0, 0], WriteRegisters 300 [0, 0],
      NextHydraulicAnalysisStep, Sleep 1]"

section \<open>Proofs\<close>

subsection \<open>Event classes\<close>

lemma emitsI: "(\<And>t. \<exists>evs. snd (m t) = t @ evs \<and> list_all P evs) \<Longrightarrow> emits P m"
  by (simp add: emits_def)

lemma emitsD: "emits P m \<Longrightarrow> \<exists>evs. snd (m t) = t @ evs \<and> list_all P evs"
  by (simp add: emits_def)

lemma emits_return: "emits P (return x)"
  by (simp add: emits_def return_def)

lemma emits_sys_exit: "emits P (sys_exit c)"
  by (simp add: emits_def sys_exit_def)

lemma emits_out_of_fuel: "emits P (\<lambda>t. (OutOfFuel, t))"
  by (simp add: emits_def)

lemma emits_raise: "emits P (\<lambda>t. (Raise e, t))"
  by (simp add: emits_def)

lemma emits_print: "P (Print s) \<Longrightarrow> emits P (print s)"
  by (simp add: emits_def print_def)

lemma emits_perform: "P ev \<Longrightarrow> emits P (perform a ev)"
  by (simp add: emits_def perform_def split: sum.splits)

lemma emits_pure_call: "emits P (pure_call r)"
  by (simp add: emits_def pure_call_def split: sum.splits)

lemma emits_bind:
  assumes "emits P m" and "\<And>x. emits P (f x)"
  shows "emits P (bind m f)"
proof (rule emitsI)
  fix t
  obtain r t1 where mt: "m t = (r, t1)" by (cases "m t")
  from emitsD [OF assms(1), of t] mt obtain e1 where e1: "t1 = t @ e1" "list_all P e1"
    by auto
  show "\<exists>evs. snd (bind m f t) = t @ evs \<and> list_all P evs"
  proof (cases r)
    case (Return x)
    from emitsD [OF assms(2), of x t1] obtain e2
      where e2: "snd (f x t1) = t1 @ e2" "list_all P e2" by auto
    have "snd (bind m f t) = t @ (e1 @ e2)"
      using mt Return e1 e2 by (simp add: bind_def)
    with e1 e2 show ?thesis by (metis list_all_append)
  qed (use mt e1 in \<open>auto simp: bind_def\<close>)
qed

lemma emits_except_exit:
  assumes "emits P m" and "\<And>s. P (Print s)"
  shows "emits P (except_exit msg m)"
proof (rule emitsI)
  fix t
  obtain r t1 where mt: "m t = (r, t1)" by (cases "m t")
  from emitsD [OF assms(1), of t] mt obtain e1 where e1: "t1 = t @ e1" "list_all P e1"
    by auto
  show "\<exists>evs. snd (except_exit msg m t) = t @ evs \<and> list_all P evs"
  proof (cases "\<exists>s. r = Raise (Exception s)")
    case True
    then obtain s where "r = Raise (Exception s)" by blast
    then have "snd (except_exit msg m t) = t @ (e1 @ [Print (msg @ s)])"
      using mt e1 by (simp add: except_exit_def bind_def print_def sys_exit_def)
    with e1 assms(2) show ?thesis by (intro exI [of _ "e1 @ [Print (msg @ s)]"]) simp
  next
    case False
    then have "except_exit msg m t = (r, t1)"
      using mt by (auto simp: except_exit_def split: outcome.splits exc.splits)
    with e1 show ?thesis by auto
  qed
qed

lemma emits_case_prod: "(\<And>a b. emits P (f a b)) \<Longrightarrow> emits P (case_prod f x)"
  by (cases x) simp

lemma emits_if: "emits P a \<Longrightarrow> emits P b \<Longrightarrow> emits P (if c then a else b)"
  by simp

lemma emits_for_each: "(\<And>x. emits P (body x)) \<Longrightarrow> emits P (for_each body xs)"
  by (induction xs) (simp_all add: emits_return emits_bind)

lemma emits_collect: "(\<And>x. emits P (f x)) \<Longrightarrow> emits P (collect f xs)"
  by (induction xs) (simp_all add: emits_return emits_bind)

lemmas emits_intros =
  emits_bind emits_except_exit emits_for_each emits_collect emits_case_prod emits_if
  emits_perform emits_print emits_return emits_sys_exit emits_pure_call emits_raise
  emits_out_of_fuel

lemma emits_connect_loop: "P Connect \<Longrightarrow> P (Sleep 1) \<Longrightarrow> emits P (connect_loop n env)"
proof (induction n)
  case 0
  show ?case by (simp add: emits_out_of_fuel)
next
  case (Suc n)
  then show ?case unfolding connect_loop.simps by (intro emits_intros) 
qed

subsection \<open>Rounding to the nearest double\<close>

lemma halvings_bounds:
  "1 \<le> a \<Longrightarrow> a < 2 ^ k \<Longrightarrow> 2 ^ halvings k a \<le> a \<and> a < 2 ^ Suc (halvings k a)"
proof (induction k arbitrary: a)
  case 0
  then show ?case by simp
next
  case (Suc k)
  show ?case
  proof (cases "2 \<le> a")
    case True
    then have "1 \<le> a / 2" by simp
    moreover from Suc.prems have "a / 2 < 2 ^ k" by simp
    ultimately have "2 ^ halvings k (a / 2) \<le> a / 2 \<and> a / 2 < 2 ^ Suc (halvings k (a / 2))"
      by (rule Suc.IH)
    with True show ?thesis by simp
  next
    case False
    with Suc.prems show ?thesis by simp
  qed
qed

lemma doublings_bounds:
  "0 < a \<Longrightarrow> a < 1 \<Longrightarrow> 1 \<le> a * 2 ^ k \<Longrightarrow>
     1 \<le> a * 2 ^ doublings k a \<and> a * 2 ^ doublings k a < 2"
proof (induction k arbitrary: a)
  case 0
  then show ?case by simp
next
  case (Suc k)
  show ?case
  proof (cases "a * 2 < 1")
    case True
    moreover from Suc.prems have "0 < a * 2" by simp
    moreover from Suc.prems have "1 \<le> a * 2 * 2 ^ k" by (simp add: mult.assoc)
    ultimately have "1 \<le> a * 2 * 2 ^ doublings k (a * 2) \<and>
        a * 2 * 2 ^ doublings k (a * 2) < 2"
      by (intro Suc.IH)
    with Suc.prems show ?thesis by (simp add: mult.assoc)
  next
    case False
    then have "doublings k (a * 2) = 0" by (cases k) simp_all
    with Suc.prems False show ?thesis by simp
  qed
qed

lemma scale2_powr: "scale2 z a = a * 2 powr real_of_int z"
proof (cases "0 \<le> z")
  case True
  then have "2 powr real_of_int z = (2::real) ^ nat z"
    by (metis of_int_of_nat_eq int_nat_eq powr_realpow rel_simps(51) of_nat_numeral zero_less_numeral)
  with True show ?thesis by (simp add: scale2_def)
next
  case False
  then have "real_of_int z = - real (nat (- z))" by simp
  then have "2 powr real_of_int z = 1 / (2::real) ^ nat (- z)"
    by (simp add: powr_minus_divide powr_realpow del: of_nat_nat)
  with False show ?thesis by (simp add: scale2_def)
qed


lemma exponent_bounds:
  assumes "0 < a" and "a < 2 ^ 1024" and "1 \<le> a * 2 ^ 1075"
  shows "2 powr real_of_int (exponent a) \<le> a \<and> a < 2 powr real_of_int (exponent a + 1)"
proof (cases "1 \<le> a")
  case True
  then have d: "doublings 1075 a = 0" by (simp add: numeral_eq_Suc)
  from halvings_bounds [OF True assms(2)]
  have "2 ^ halvings 1024 a \<le> a \<and> a < 2 ^ Suc (halvings 1024 a)" .
  moreover have "exponent a = int (halvings 1024 a)" by (simp add: exponent_def d)
  moreover have "2 powr real_of_int (int n) = (2::real) ^ n" for n
    by (simp add: powr_realpow)
  moreover have "2 powr real_of_int (int n + 1) = (2::real) ^ Suc n" for n
  proof -
    have "real_of_int (int n + 1) = real (Suc n)" by simp
    then show ?thesis by (simp only: powr_realpow zero_less_numeral)
  qed
  ultimately show ?thesis by simp
next
  case False
  then have lt: "a < 1" by simp
  then have h: "halvings 1024 a = 0" by (simp add: numeral_eq_Suc)
  from doublings_bounds [OF assms(1) lt assms(3)]
  have b: "1 \<le> a * 2 ^ doublings 1075 a" "a * 2 ^ doublings 1075 a < 2" by simp_all
  let ?d = "doublings 1075 a"
  have e: "exponent a = - int ?d" by (simp add: exponent_def h)
  have p: "2 powr real_of_int (- int ?d) = 1 / (2::real) ^ ?d"
    by (simp add: powr_minus_divide powr_realpow)
  have q: "2 powr real_of_int (- int ?d + 1) = 2 / (2::real) ^ ?d"
  proof -
    have c: "real_of_int (- int ?d + 1) = - real ?d + 1" by simp
    have "(2::real) powr (- real ?d + 1) = 2 powr (- real ?d) * 2 powr 1"
      by (rule powr_add)
    also have "(2::real) powr (- real ?d) = 1 / 2 ^ ?d"
      by (simp add: powr_minus_divide powr_realpow)
    finally show ?thesis unfolding c by simp
  qed
  have pos: "(0::real) < 2 ^ ?d" by simp
  from b(1) pos have "1 / 2 ^ ?d \<le> a"
    by (simp add: divide_le_eq)
  moreover from b(2) pos have "a < 2 / 2 ^ ?d"
    by (simp add: less_divide_eq)
  ultimately show ?thesis unfolding e p q by (rule conjI)
qed

lemma round_half_even_error: "\<bar>of_int (round_half_even x) - x\<bar> \<le> 1 / 2"
proof -
  have "of_int \<lfloor>x\<rfloor> \<le> x" "x < of_int \<lfloor>x\<rfloor> + 1" by linarith+
  then show ?thesis
    by (auto simp: round_half_even_def Let_def)
qed

lemma round_half_even_of_int: "round_half_even (of_int z) = z"
  by (simp add: round_half_even_def)

lemma nearest_double_error:
  assumes "0 < a" and "a < 2 ^ 1024" and "1 \<le> a * 2 ^ 1075"
  shows "\<bar>nearest_double a - a\<bar> \<le> a / 2 ^ 53"
proof -
  let ?e = "exponent a"
  let ?m = "round_half_even (scale2 (52 - ?e) a)"
  have up: "scale2 (52 - ?e) a = a * 2 powr real_of_int (52 - ?e)" by (rule scale2_powr)
  have inv: "2 powr real_of_int (?e - 52) * 2 powr real_of_int (52 - ?e) = (1::real)"
    by (simp add: powr_add [symmetric])
  have "nearest_double a - a =
      (of_int ?m - a * 2 powr real_of_int (52 - ?e)) * 2 powr real_of_int (?e - 52)"
  proof -
    have "a * 2 powr real_of_int (52 - ?e) * 2 powr real_of_int (?e - 52) = a"
      using inv by (simp add: mult.assoc mult.commute)
    then show ?thesis
      using assms(1) by (simp add: nearest_double_def scale2_powr left_diff_distrib)
  qed
  then have "\<bar>nearest_double a - a\<bar> =
      \<bar>of_int ?m - a * 2 powr real_of_int (52 - ?e)\<bar> * 2 powr real_of_int (?e - 52)"
    by (simp add: abs_mult)
  also have "\<dots> \<le> 1 / 2 * 2 powr real_of_int (?e - 52)"
    using round_half_even_error [of "scale2 (52 - ?e) a"] unfolding up
    by (intro mult_right_mono) simp_all
  also have "\<dots> = 2 powr real_of_int ?e / 2 ^ 53"
  proof -
    have "2 powr real_of_int (?e - 52) = 2 powr real_of_int ?e * 2 powr (- 52)"
      by (simp add: powr_add [symmetric])
    also have "2 powr (- 52) = 1 / (2::real) ^ 52"
      by (simp add: powr_minus_divide)
    finally show ?thesis by simp
  qed
  also have "\<dots> \<le> a / 2 ^ 53"
    using exponent_bounds [OF assms] by (simp add: divide_right_mono)
  finally show ?thesis .
qed

lemma nearest_double_exact:
  assumes "0 < a" and "scale2 (52 - exponent a) a = of_int z"
  shows "nearest_double a = a"
proof -
  let ?e = "exponent a"
  have inv: "2 powr real_of_int (52 - ?e) * 2 powr real_of_int (?e - 52) = (1::real)"
    by (simp add: powr_add [symmetric])
  from assms(2) have "of_int z = a * 2 powr real_of_int (52 - ?e)"
    by (simp add: scale2_powr)
  then have "of_int z * 2 powr real_of_int (?e - 52) = a"
    using inv by (simp add: mult.assoc)
  with assms show ?thesis
    by (simp add: nearest_double_def round_half_even_of_int scale2_powr)
qed


lemma pump_quotient_range:
  assumes "0 < unat (r :: 16 word)"
  shows "0 < real (unat r) / 100" "real (unat r) / 100 < 2 ^ 10"
    "real (unat r) / 100 < 2 ^ 1024" "1 \<le> real (unat r) / 100 * 2 ^ 1075"
proof -
  have "unat r < 65536" using unsigned_less [of r, where ?'a = nat] by simp
  then have u: "real (unat r) < 65536" by (metis of_nat_less_iff of_nat_numeral)
  from assms have l: "1 \<le> real (unat r)" by (metis Suc_leI of_nat_1 of_nat_le_iff One_nat_def)
  show "0 < real (unat r) / 100" using l by (simp del: of_nat_unat)
  show small: "real (unat r) / 100 < 2 ^ 10" using u by (simp del: of_nat_unat)
  have "(2::real) ^ 10 \<le> 2 ^ 1024" by (rule power_increasing) simp_all
  with small show "real (unat r) / 100 < 2 ^ 1024" by (rule less_le_trans)
  have "(100::real) \<le> 2 ^ 7" by simp
  also have "\<dots> \<le> 2 ^ 1075" by (rule power_increasing) simp_all
  finally have "(100::real) \<le> 2 ^ 1075" .
  then have "100 * 1 \<le> (2::real) ^ 1075 * real (unat r)"
    using l by (intro mult_mono) simp_all
  then show "1 \<le> real (unat r) / 100 * 2 ^ 1075"
    by (simp add: mult.commute del: of_nat_unat)
qed

lemma decode_pump_setting_error:
  "\<bar>decode_pump_setting r - real (unat r) / 100\<bar> \<le> real (unat r) / 100 / 2 ^ 53"
proof (cases "unat r = 0")
  case True
  then show ?thesis by (simp add: decode_pump_setting_def nearest_double_def del: of_nat_unat)
next
  case False
  then have "0 < unat r" by simp
  from nearest_double_error [OF pump_quotient_range(1,3,4) [OF this]]
  show ?thesis by (simp only: decode_pump_setting_def)
qed

lemma decode_pump_setting_exact:
  assumes "25 dvd unat r"
  shows "decode_pump_setting r = real (unat r) / 100"
proof (cases "unat r = 0")
  case True
  then show ?thesis by (simp add: decode_pump_setting_def nearest_double_def del: of_nat_unat)
next
  case False
  then have pos: "0 < unat r" by simp
  let ?x = "real (unat r) / 100"
  let ?e = "exponent ?x"
  note range = pump_quotient_range [OF pos]
  from exponent_bounds [OF range(1,3,4)] range(2)
  have "2 powr real_of_int ?e < 2 ^ 10" by linarith
  also have "(2::real) ^ 10 = 2 powr real_of_int 10"
    by (simp add: powr_realpow [symmetric])
  finally have "real_of_int ?e < real_of_int 10"
    by (simp only: powr_less_cancel_iff)
  then have e: "?e < 10" by linarith
  from assms obtain j where j: "unat r = 25 * j" by (auto simp: dvd_def)
  define s where "s = nat (52 - ?e) - 2"
  from e have n: "nat (52 - ?e) = Suc (Suc s)" "0 \<le> 52 - ?e" by (simp_all add: s_def)
  have "scale2 (52 - ?e) ?x = ?x * 2 ^ Suc (Suc s)"
    using n by (simp only: scale2_def if_True)
  also have "\<dots> = real j * 2 ^ s"
    by (simp add: j del: of_nat_unat)
  also have "\<dots> = of_int (int j * 2 ^ s)" by simp
  finally have "scale2 (52 - ?e) ?x = of_int (int j * 2 ^ s)" .
  from nearest_double_exact [OF range(1) this]
  show ?thesis by (simp only: decode_pump_setting_def)
qed

lemma decode_pump_setting_values:
  "decode_pump_setting 150 = 3 / 2" "decode_pump_setting 50 = 1 / 2"
  "decode_pump_setting 100 = 1"
proof -
  have "25 dvd unat (150 :: 16 word)" "25 dvd unat (50 :: 16 word)"
    "25 dvd unat (100 :: 16 word)" by simp_all
  from this [THEN decode_pump_setting_exact]
  show "decode_pump_setting 150 = 3 / 2" "decode_pump_setting 50 = 1 / 2"
    "decode_pump_setting 100 = 1"
    by simp_all
qed

subsection \<open>Decoding the control frame\<close>

lemma decode_pipe_status_eq: "decode_pipe_status b = 1 - of_bool b"
  by (cases b) (simp_all add: decode_pipe_status_def)

lemma bind_Return_iff:
  "bind m f t = (Return y, t') \<longleftrightarrow> (\<exists>x t1. m t = (Return x, t1) \<and> f x t1 = (Return y, t'))"
  by (auto simp: bind_def split: prod.splits outcome.splits)

lemma except_exit_Return_iff:
  "except_exit msg m t = (Return x, t') \<longleftrightarrow> m t = (Return x, t')"
  by (auto simp: except_exit_def bind_def print_def sys_exit_def split: prod.splits outcome.splits exc.splits)

lemma perform_Return_iff:
  "perform a ev t = (Return x, t') \<longleftrightarrow> a t ev = Inr x \<and> t' = t @ [ev]"
  by (auto simp: perform_def split: sum.splits)

lemma return_Return_iff: "return x t = (Return y, t') \<longleftrightarrow> y = x \<and> t' = t"
  by (auto simp: return_def)

lemmas Return_iffs = bind_Return_iff except_exit_Return_iff perform_Return_iff return_Return_iff

lemma get_controls_Return:
  assumes "get_controls env t = (Return ctl, t')"
  shows "\<exists>bits registers.
           ret_bits env t (ReadCoils 0 100) = Inr bits \<and>
           ret_registers env (t @ [ReadCoils 0 100]) (ReadHoldingRegisters 0 100) = Inr registers \<and>
           ctl = \<lparr>pipe_statuses = map decode_pipe_status bits,
                  pump_settings = map decode_pump_setting registers\<rparr> \<and>
           t' = t @ [ReadCoils 0 100, ReadHoldingRegisters 0 100]"
  using assms by (auto simp: get_controls_def Return_iffs)

lemma get_controls_scenario_a:
  "get_controls scenario_a [] =
     (Return \<lparr>pipe_statuses = [0, 1], pump_settings = [3 / 2, 1 / 2]\<rparr>,
      [ReadCoils 0 100, ReadHoldingRegisters 0 100])"
  by (simp add: get_controls_def except_exit_def bind_def perform_def return_def scenario_a_def
      decode_pipe_status_def decode_pump_setting_values)

lemma get_controls_byte_padded:
  "get_controls byte_padded [] =
     (Return \<lparr>pipe_statuses = replicate 104 1, pump_settings = replicate 100 1\<rparr>,
      [ReadCoils 0 100, ReadHoldingRegisters 0 100])"
  by (simp add: get_controls_def except_exit_def bind_def perform_def return_def scenario_a_def
      byte_padded_def decode_pipe_status_def decode_pump_setting_values)

text \<open>
  Claim C1. Every pipe status that \<open>get_controls\<close> returns is the negation of the coil bit
  at the same position of the response to \<open>read_coils(0, 100)\<close>: 1 minus the bit. A block
  of zero bits therefore decodes to all ones (open), and the bits 1, 0 decode to 0, 1.
\<close>

theorem pipe_status_is_negated_coil:
  assumes "ret_bits env t (ReadCoils 0 100) = Inr bits"
    and "get_controls env t = (Return ctl, t')"
  shows "pipe_statuses ctl = map (\<lambda>b. 1 - of_bool b) bits \<and>
         decode_pipe_status b = 1 - of_bool b \<and>
         map decode_pipe_status (replicate n False) = replicate n 1 \<and>
         map decode_pipe_status [True, False] = [0, 1]"
proof -
  from get_controls_Return [OF assms(2)] assms(1)
  have "pipe_statuses ctl = map decode_pipe_status bits" by auto
  then show ?thesis by (simp add: decode_pipe_status_eq [abs_def])
qed

text \<open>The environment \<open>scenario_a\<close> answers the coil read with the bits 1, 0.\<close>

theorem pipe_status_is_negated_coil_witness:
  "ret_bits scenario_a [] (ReadCoils 0 100) = Inr [True, False] \<and>
   get_controls scenario_a [] =
     (Return \<lparr>pipe_statuses = [0, 1], pump_settings = [3 / 2, 1 / 2]\<rparr>,
      [ReadCoils 0 100, ReadHoldingRegisters 0 100]) \<and>
   pipe_statuses \<lparr>pipe_statuses = [0, 1], pump_settings = [3 / 2, 1 / 2]\<rparr> =
     map (\<lambda>b. 1 - of_bool b) [True, False]"
proof -
  have bits: "ret_bits scenario_a [] (ReadCoils 0 100) = Inr [True, False]"
    by (simp add: scenario_a_def)
  from pipe_status_is_negated_coil [OF bits get_controls_scenario_a] bits get_controls_scenario_a
  show ?thesis by simp
qed

text \<open>
  Claim C2. Every pump setting that \<open>get_controls\<close> returns is the float quotient of
  the unsigned value of the 16-bit holding register at the same position by 100: the
  double nearest to the exact quotient. It differs from the exact quotient by at most the
  fraction \<open>2^-53\<close> of it, and equals it when the register value is a multiple of 25;
  the registers 150, 50 decode to 1.5, 0.5.
\<close>

theorem pump_setting_is_raw_over_100:
  assumes "ret_registers env (t @ [ReadCoils 0 100]) (ReadHoldingRegisters 0 100) = Inr registers"
    and "get_controls env t = (Return ctl, t')"
  shows "pump_settings ctl = map (\<lambda>r. nearest_double (real (unat r) / 100)) registers \<and>
         \<bar>decode_pump_setting r - real (unat r) / 100\<bar> \<le> real (unat r) / 100 / 2 ^ 53 \<and>
         (25 dvd unat r \<longrightarrow> decode_pump_setting r = real (unat r) / 100) \<and>
         map decode_pump_setting [150, 50] = [3 / 2, 1 / 2]"
proof -
  from get_controls_Return [OF assms(2)] assms(1)
  have "pump_settings ctl = map decode_pump_setting registers" by auto
  then have "pump_settings ctl = map (\<lambda>r. nearest_double (real (unat r) / 100)) registers"
    by (simp only: decode_pump_setting_def [abs_def])
  moreover have "map decode_pump_setting [150, 50] = [3 / 2, 1 / 2]"
    by (simp add: decode_pump_setting_values)
  ultimately show ?thesis
    using decode_pump_setting_error [of r] decode_pump_setting_exact [of r] by blast
qed

text \<open>
  The environment \<open>scenario_a\<close> answers the register read with 150, 50; the register
  value 150 is a multiple of 25.
\<close>

theorem pump_setting_is_raw_over_100_witness:
  "ret_registers scenario_a ([] @ [ReadCoils 0 100]) (ReadHoldingRegisters 0 100) = Inr [150, 50] \<and>
   get_controls scenario_a [] =
     (Return \<lparr>pipe_statuses = [0, 1], pump_settings = [3 / 2, 1 / 2]\<rparr>,
      [ReadCoils 0 100, ReadHoldingRegisters 0 100]) \<and>
   pump_settings \<lparr>pipe_statuses = [0, 1], pump_settings = [3 / 2, 1 / 2]\<rparr> =
     map (\<lambda>r. nearest_double (real (unat r) / 100)) [150, 50 :: 16 word] \<and>
   25 dvd unat (150 :: 16 word) \<and>
   decode_pump_setting 150 = real (unat (150 :: 16 word)) / 100"
proof -
  have regs: "ret_registers scenario_a ([] @ [ReadCoils 0 100]) (ReadHoldingRegisters 0 100) = Inr [150, 50]"
    by (simp add: scenario_a_def)
  have m: "25 dvd unat (150 :: 16 word)" by simp
  from pump_setting_is_raw_over_100 [OF regs get_controls_scenario_a, of 150] m
  have "pump_settings \<lparr>pipe_statuses = [0, 1], pump_settings = [3 / 2, 1 / 2]\<rparr> =
      map (\<lambda>r. nearest_double (real (unat r) / 100)) [150, 50 :: 16 word]"
    and "decode_pump_setting 150 = real (unat (150 :: 16 word)) / 100"
    by blast+
  with regs get_controls_scenario_a m show ?thesis by blast
qed

text \<open>
  Claim C10 says that a successful control read yields exactly 100 pipe statuses.
  \<open>get_controls\<close> decodes every bit of the response and cuts nothing off: on a response
  that carries 104 bits it yields 104 pipe statuses.
\<close>

theorem control_frame_length_counterexample:
  "get_controls byte_padded [] =
     (Return \<lparr>pipe_statuses = replicate 104 1, pump_settings = replicate 100 1\<rparr>,
      [ReadCoils 0 100, ReadHoldingRegisters 0 100]) \<and>
   length (pipe_statuses \<lparr>pipe_statuses = replicate 104 1, pump_settings = replicate 100 1\<rparr>) \<noteq> 100"
  using get_controls_byte_padded by simp

text \<open>
  Claim C10, amended. A successful control read always requests the fixed blocks
  (address 0, count 100) of coils and of holding registers, whatever the network, and
  returns as many pipe statuses as the coil response has bits and as many pump settings
  as the register response has registers. So when a response carries at least the 100
  values requested, the decoded sequence is not shorter than any asset count up to 100.
\<close>

theorem control_frame_length_follows_response:
  assumes "get_controls env t = (Return ctl, t')"
  shows "\<exists>bits registers.
           ret_bits env t (ReadCoils 0 100) = Inr bits \<and>
           ret_registers env (t @ [ReadCoils 0 100]) (ReadHoldingRegisters 0 100) = Inr registers \<and>
           t' = t @ [ReadCoils 0 100, ReadHoldingRegisters 0 100] \<and>
           length (pipe_statuses ctl) = length bits \<and>
           length (pump_settings ctl) = length registers \<and>
           (100 \<le> length bits \<and> pipe_count \<le> 100 \<longrightarrow> pipe_count \<le> length (pipe_statuses ctl)) \<and>
           (100 \<le> length registers \<and> pump_count \<le> 100 \<longrightarrow> pump_count \<le> length (pump_settings ctl))"
  using get_controls_Return [OF assms] by auto

text \<open>The environment \<open>byte_padded\<close>, with two pipes and one pump.\<close>

theorem control_frame_length_follows_response_witness:
  "get_controls byte_padded [] =
     (Return \<lparr>pipe_statuses = replicate 104 1, pump_settings = replicate 100 1\<rparr>,
      [ReadCoils 0 100, ReadHoldingRegisters 0 100]) \<and>
   (\<exists>bits registers.
      ret_bits byte_padded [] (ReadCoils 0 100) = Inr bits \<and>
      ret_registers byte_padded [ReadCoils 0 100] (ReadHoldingRegisters 0 100) = Inr registers \<and>
      100 \<le> length bits \<and> 100 \<le> length registers \<and> (2::nat) \<le> 100 \<and> (1::nat) \<le> 100 \<and>
      length (pipe_statuses \<lparr>pipe_statuses = replicate 104 1, pump_settings = replicate 100 1\<rparr>) = length bits \<and>
      2 \<le> length (pipe_statuses \<lparr>pipe_statuses = replicate 104 1, pump_settings = replicate 100 1\<rparr>) \<and>
      1 \<le> length (pump_settings \<lparr>pipe_statuses = replicate 104 1, pump_settings = replicate 100 1\<rparr>))"
  using control_frame_length_follows_response [OF get_controls_byte_padded, of 2 1]
    get_controls_byte_padded
  by (simp add: byte_padded_def scenario_a_def)

subsection \<open>Connecting\<close>

lemma attempts_0: "attempts 0 = []"
  by (simp add: attempts_def)

lemma attempts_Suc: "attempts (Suc k) = Connect # Sleep 1 # attempts k"
  by (simp add: attempts_def)

lemma count_attempts: "count_list (attempts k) Connect = k \<and> count_list (attempts k) (Sleep 1) = k"
  by (induction k) (simp_all add: attempts_0 attempts_Suc)

lemma connect_loop_retries:
  assumes "\<forall>k<n. ret_bool env (h @ attempts k) Connect = Inr False \<and>
                  ret_none env (h @ attempts k @ [Connect]) (Sleep 1) = Inr ()"
    and "ret_bool env (h @ attempts n) Connect = Inr True"
    and "n < fuel"
  shows "connect_loop fuel env h = (Return (), h @ attempts n @ [Connect])"
  using assms
proof (induction n arbitrary: h fuel)
  case 0
  then obtain f where "fuel = Suc f" by (cases fuel) auto
  with 0 show ?case
    by (simp add: attempts_0 bind_def perform_def return_def)
next
  case (Suc n)
  then obtain f where fuel: "fuel = Suc f" and f: "n < f" by (cases fuel) auto
  from Suc.prems(1) have first: "ret_bool env h Connect = Inr False"
    "ret_none env (h @ [Connect]) (Sleep 1) = Inr ()"
    by (auto dest: spec [of _ 0] simp: attempts_0)
  have later: "\<forall>k<n. ret_bool env ((h @ [Connect, Sleep 1]) @ attempts k) Connect = Inr False \<and>
      ret_none env ((h @ [Connect, Sleep 1]) @ attempts k @ [Connect]) (Sleep 1) = Inr ()"
  proof (intro allI impI)
    fix k assume "k < n"
    then have "Suc k < Suc n" by simp
    with Suc.prems(1) show "ret_bool env ((h @ [Connect, Sleep 1]) @ attempts k) Connect = Inr False \<and>
      ret_none env ((h @ [Connect, Sleep 1]) @ attempts k @ [Connect]) (Sleep 1) = Inr ()"
      by (auto dest!: spec [of _ "Suc k"] simp: attempts_Suc)
  qed
  from Suc.prems(2) have last: "ret_bool env ((h @ [Connect, Sleep 1]) @ attempts n) Connect = Inr True"
    by (simp add: attempts_Suc)
  from Suc.IH [OF later last f]
  have "connect_loop f env (h @ [Connect, Sleep 1]) = (Return (), (h @ [Connect, Sleep 1]) @ attempts n @ [Connect])" .
  with first fuel show ?case
    by (simp add: attempts_Suc bind_def perform_def return_def)
qed

text \<open>
  Claim C4. Against an endpoint whose first \<open>n\<close> connection attempts fail (\<open>connect()\<close>
  returns false) and whose next attempt succeeds, \<open>setup_client\<close> returns normally, for
  every \<open>n\<close>, once the loop is followed for more than \<open>n\<close> attempts: it has made exactly
  \<open>n + 1\<close> attempts and slept one second after each failed one, \<open>n\<close> times in all.
\<close>

theorem setup_client_returns_after_failed_attempts:
  assumes "ret_none env t (ModbusTcpClient ''openplc'' 502) = Inr ()"
    and "\<forall>k<n. ret_bool env (t @ ModbusTcpClient ''openplc'' 502 # attempts k) Connect = Inr False \<and>
               ret_none env (t @ ModbusTcpClient ''openplc'' 502 # attempts k @ [Connect]) (Sleep 1) = Inr ()"
    and "ret_bool env (t @ ModbusTcpClient ''openplc'' 502 # attempts n) Connect = Inr True"
    and "n < fuel"
  shows "setup_client fuel env t =
           (Return (), t @ ModbusTcpClient ''openplc'' 502 # attempts n @ [Connect]) \<and>
         count_list (ModbusTcpClient ''openplc'' 502 # attempts n @ [Connect]) Connect = n + 1 \<and>
         count_list (ModbusTcpClient ''openplc'' 502 # attempts n @ [Connect]) (Sleep 1) = n"
proof -
  let ?h = "t @ [ModbusTcpClient ''openplc'' 502]"
  have "connect_loop fuel env ?h = (Return (), ?h @ attempts n @ [Connect])"
    using assms(2,3,4) by (intro connect_loop_retries) simp_all
  with assms(1) show ?thesis
    by (simp add: setup_client_def except_exit_def bind_def perform_def count_attempts count_attempts [unfolded One_nat_def])
qed

text \<open>Against an endpoint that never accepts, the loop neither returns nor raises.\<close>

lemma connect_loop_all_fail:
  assumes "\<forall>h. ret_bool env h Connect = Inr False \<and> ret_none env h (Sleep 1) = Inr ()"
  shows "fst (connect_loop fuel env t) = OutOfFuel"
  using assms by (induction fuel arbitrary: t) (simp_all add: bind_def perform_def)

text \<open>Scenario D: two failures, then success at the third attempt.\<close>

theorem setup_client_returns_after_failed_attempts_witness:
  "setup_client 3 (flaky_endpoint 2) [] =
     (Return (), [ModbusTcpClient ''openplc'' 502, Connect, Sleep 1, Connect, Sleep 1, Connect]) \<and>
   count_list [ModbusTcpClient ''openplc'' 502, Connect, Sleep 1, Connect, Sleep 1, Connect] Connect = 3"
proof -
  have a: "ret_none (flaky_endpoint 2) [] (ModbusTcpClient ''openplc'' 502) = Inr ()"
    by (simp add: flaky_endpoint_def scenario_a_def)
  have b: "\<forall>k<2. ret_bool (flaky_endpoint 2) ([] @ ModbusTcpClient ''openplc'' 502 # attempts k) Connect = Inr False \<and>
      ret_none (flaky_endpoint 2) ([] @ ModbusTcpClient ''openplc'' 502 # attempts k @ [Connect]) (Sleep 1) = Inr ()"
    by (simp add: flaky_endpoint_def scenario_a_def count_attempts)
  have c: "ret_bool (flaky_endpoint 2) ([] @ ModbusTcpClient ''openplc'' 502 # attempts 2) Connect = Inr True"
    by (simp add: flaky_endpoint_def scenario_a_def count_attempts)
  have d: "(2::nat) < 3" by simp
  have e: "attempts 2 = [Connect, Sleep 1, Connect, Sleep 1]"
    by (simp add: attempts_def numeral_2_eq_2)
  from setup_client_returns_after_failed_attempts [OF a b c d] show ?thesis
    by (simp add: e)
qed

subsection \<open>Writing telemetry\<close>

lemma for_each_Return_events:
  assumes "\<And>x t u t'. body x t = (Return u, t') \<Longrightarrow> \<exists>e. t' = t @ [e] \<and> Q x e"
    and "for_each body xs t = (Return u, t')"
  shows "\<exists>evs. t' = t @ evs \<and> list_all2 Q xs evs"
  using assms(2)
proof (induction xs arbitrary: t)
  case Nil
  then show ?case by (simp add: return_def)
next
  case (Cons x xs)
  from Cons.prems obtain v t1 where 1: "body x t = (Return v, t1)"
    and 2: "for_each body xs t1 = (Return u, t')"
    by (auto simp: bind_Return_iff)
  from assms(1) [OF 1] obtain e where e: "t1 = t @ [e]" "Q x e" by blast
  from Cons.IH [OF 2] obtain evs where "t' = t1 @ evs" "list_all2 Q xs evs" by blast
  with e have "t' = t @ (e # evs) \<and> list_all2 Q (x # xs) (e # evs)" by simp
  then show ?case by blast
qed

lemma for_each_all_Return:
  assumes "\<And>x t. body x t = (Return (), t @ [ev x])"
  shows "for_each body xs t = (Return (), t @ map ev xs)"
  by (induction xs arbitrary: t) (simp_all add: return_def bind_def assms)

lemma pure_call_Return_iff: "pure_call r t = (Return x, t') \<longleftrightarrow> r = Inr x \<and> t' = t"
  by (auto simp: pure_call_def split: sum.splits)

lemma write_block_Return:
  assumes "write_block env base vals t = (Return u, t')"
  shows "\<exists>evs. t' = t @ evs \<and> block_written env base vals evs"
proof -
  let ?Q = "\<lambda>(i, v) e. \<exists>registers. convert_to_registers env v = Inr registers \<and>
     e = WriteRegisters (base + i * 2) registers"
  let ?body = "\<lambda>(i, value). bind (pure_call (convert_to_registers env value)) (\<lambda>registers.
     perform (ret_none env) (WriteRegisters (base + i * 2) registers))"
  have "\<exists>evs. t' = t @ evs \<and> list_all2 ?Q (enumerate 0 vals) evs"
  proof (rule for_each_Return_events)
    show "for_each ?body (enumerate 0 vals) t = (Return u, t')"
      using assms unfolding write_block_def .
  next
    fix x t u t'
    assume "?body x t = (Return u, t')"
    then show "\<exists>e. t' = t @ [e] \<and> ?Q x e"
      by (cases x) (auto simp: bind_Return_iff pure_call_Return_iff perform_Return_iff)
  qed
  then obtain evs where evs: "t' = t @ evs" "list_all2 ?Q (enumerate 0 vals) evs"
    by blast
  have "block_written env base vals evs"
    unfolding block_written_def
  proof (intro conjI allI impI)
    show "length evs = length vals"
      using list_all2_lengthD [OF evs(2)] by simp
    fix i assume "i < length vals"
    with evs(2) have "?Q (enumerate 0 vals ! i) (evs ! i)"
      by (simp add: list_all2_conv_all_nth)
    with \<open>i < length vals\<close>
    show "\<exists>registers. convert_to_registers env (vals ! i) = Inr registers \<and>
        evs ! i = WriteRegisters (base + 2 * i) registers"
      by (simp add: nth_enumerate_eq mult.commute)
  qed
  with evs(1) show ?thesis by blast
qed

lemma write_block_all_ok:
  assumes "\<And>v. convert_to_registers env v = Inr (conv v)"
    and "\<And>h a r. ret_none env h (WriteRegisters a r) = Inr ()"
  shows "write_block env base vals t =
     (Return (), t @ map (\<lambda>(i, v). WriteRegisters (base + i * 2) (conv v)) (enumerate 0 vals))"
  unfolding write_block_def
  by (rule for_each_all_Return) (simp add: split_def bind_def pure_call_def perform_def assms)

lemma write_data_Return:
  assumes "write_data env data t = (Return u, t')"
  shows "\<exists>js ts ps.
     write_block env 100 (junction_pressures data) t = (Return (), t @ js) \<and>
     write_block env 200 (tank_heads data) (t @ js) = (Return (), t @ js @ ts) \<and>
     write_block env 300 (pump_flows data) (t @ js @ ts) = (Return (), t @ js @ ts @ ps) \<and>
     t' = t @ js @ ts @ ps"
proof -
  from assms obtain t1 t2 where
    1: "write_block env 100 (junction_pressures data) t = (Return (), t1)" and
    2: "write_block env 200 (tank_heads data) t1 = (Return (), t2)" and
    3: "write_block env 300 (pump_flows data) t2 = (Return (), t')"
    by (auto simp: write_data_def Return_iffs)
  from write_block_Return [OF 1] obtain js where js: "t1 = t @ js" by blast
  from write_block_Return [OF 2] obtain ts where ts: "t2 = t1 @ ts" by blast
  from write_block_Return [OF 3] obtain ps where ps: "t' = t2 @ ps" by blast
  from 1 2 3 js ts ps show ?thesis by auto
qed

lemma footprints_block:
  assumes "block_written env base vals evs"
    and "\<And>v registers. convert_to_registers env v = Inr registers \<Longrightarrow> length registers = 2"
  shows "footprints evs = Pair HoldingRegisters ` {base..<base + 2 * length vals}"
proof -
  have fp: "footprint (evs ! i) = [(HoldingRegisters, base + 2 * i), (HoldingRegisters, base + 2 * i + 1)]"
    if "i < length vals" for i
  proof -
    from assms(1) that obtain registers where
      r: "convert_to_registers env (vals ! i) = Inr registers"
         "evs ! i = WriteRegisters (base + 2 * i) registers"
      by (auto simp: block_written_def)
    from assms(2) [OF r(1)] have "length registers = 2" .
    with r(2) show ?thesis by (simp add: upt_rec)
  qed
  have "set evs = (\<lambda>i. evs ! i) ` {..<length vals}"
    using assms(1) by (auto simp: block_written_def set_conv_nth)
  then have "footprints evs = (\<Union>i<length vals. set (footprint (evs ! i)))"
    by (simp add: footprints_def)
  also have "\<dots> = (\<Union>i<length vals. {(HoldingRegisters, base + 2 * i), (HoldingRegisters, base + 2 * i + 1)})"
    using fp by auto
  also have "\<dots> = Pair HoldingRegisters ` {base..<base + 2 * length vals}"
  proof (intro set_eqI iffI)
    fix x assume "x \<in> (\<Union>i<length vals. {(HoldingRegisters, base + 2 * i), (HoldingRegisters, base + 2 * i + 1)})"
    then show "x \<in> Pair HoldingRegisters ` {base..<base + 2 * length vals}" by auto
  next
    fix x assume "x \<in> Pair HoldingRegisters ` {base..<base + 2 * length vals}"
    then obtain a where a: "x = (HoldingRegisters, a)" "base \<le> a" "a < base + 2 * length vals" by auto
    define i where "i = (a - base) div 2"
    have "i < length vals" using a unfolding i_def by arith
    moreover have "a = base + 2 * i \<or> a = base + 2 * i + 1" using a unfolding i_def by arith
    ultimately show "x \<in> (\<Union>i<length vals. {(HoldingRegisters, base + 2 * i), (HoldingRegisters, base + 2 * i + 1)})"
      using a(1) by auto
  qed
  finally show ?thesis .
qed

lemma write_data_all_ok:
  assumes "\<And>v. convert_to_registers env v = Inr (conv v)"
    and "\<And>h a r. ret_none env h (WriteRegisters a r) = Inr ()"
  shows "write_data env data t =
     (Return (),
      t @ map (\<lambda>(i, v). WriteRegisters (100 + i * 2) (conv v)) (enumerate 0 (junction_pressures data))
        @ map (\<lambda>(i, v). WriteRegisters (200 + i * 2) (conv v)) (enumerate 0 (tank_heads data))
        @ map (\<lambda>(i, v). WriteRegisters (300 + i * 2) (conv v)) (enumerate 0 (pump_flows data)))"
  by (simp add: write_data_def except_exit_def bind_def write_block_all_ok [of env conv, OF assms])

lemma scenario_a_conversion:
  "convert_to_registers scenario_a v = Inr (if v = 1 then [16256, 0] else [0, 0])"
  by (simp add: scenario_a_def)

lemma scenario_a_conversion_width:
  "\<forall>v registers. convert_to_registers scenario_a v = Inr registers \<longrightarrow> length registers = 2"
  by (simp add: scenario_a_def)

lemma scenario_a_ret_none: "ret_none scenario_a h e = Inr ()"
  by (simp add: scenario_a_def)

lemma write_data_sample:
  "write_data scenario_a sample_data [] =
     (Return (),
      [WriteRegisters 100 [16256, 0], WriteRegisters 102 [0, 0],
       WriteRegisters 200 [0, 0], WriteRegisters 300 [16256, 0]])"
  by (simp add: write_data_all_ok [OF scenario_a_conversion scenario_a_ret_none]
      sample_data_def enumerate_eq_zip upt_rec)

text \<open>The conversion on some values: 1.0 is \<open>0x3F800000\<close>, 0.1 is \<open>0x3DCCCCCD\<close>, -2.5 is \<open>0xC0200000\<close>.\<close>

lemma exponent_values:
  "exponent 1 = 0" "exponent (1 / 10) = - 4" "exponent (5 / 2) = 1"
  by (simp_all add: exponent_def numeral_eq_Suc)

lemma float32_bits_values:
  "float32_bits 0 = Inr 0"
  "float32_bits 1 = Inr 1065353216"
  "float32_bits (1 / 10) = Inr 1036831949"
  "float32_bits (- (5 / 2)) = Inr 3223322624"
  by (simp_all add: float32_bits_def Let_def exponent_values scale2_def round_half_even_def)

lemma float32_registers_values:
  "float32_registers 0 = Inr [0, 0]"
  "float32_registers 1 = Inr [16256, 0]"
  "float32_registers (1 / 10) = Inr [15820, 52429]"
  "float32_registers (- (5 / 2)) = Inr [49184, 0]"
  by (simp_all add: float32_registers_def float32_bits_values)


lemma float32_registers_pair:
  "float32_registers v = Inr registers \<Longrightarrow> \<exists>hi lo. registers = [hi, lo]"
  by (auto simp: float32_registers_def split: sum.splits)

lemma collect_perform_values:
  "collect (\<lambda>x. perform a (ev x)) xs t = (Return ys, t') \<Longrightarrow>
     t' = t @ map ev xs \<and> length ys = length xs \<and>
     (\<forall>i<length xs. a (t @ map ev (take i xs)) (ev (xs ! i)) = Inr (ys ! i))"
proof (induction xs arbitrary: t ys)
  case Nil
  then show ?case by (simp add: return_def)
next
  case (Cons x xs)
  from Cons.prems obtain y zs where
    first: "a t (ev x) = Inr y" and
    1: "collect (\<lambda>x. perform a (ev x)) xs (t @ [ev x]) = (Return zs, t')" and
    ys: "ys = y # zs"
    by (auto simp: bind_Return_iff perform_Return_iff return_Return_iff)
  from Cons.IH [OF 1] have t': "t' = (t @ [ev x]) @ map ev xs" and len: "length zs = length xs"
    and vals: "\<forall>i<length xs. a ((t @ [ev x]) @ map ev (take i xs)) (ev (xs ! i)) = Inr (zs ! i)"
    by simp_all
  have "a (t @ map ev (take i (x # xs))) (ev ((x # xs) ! i)) = Inr (ys ! i)"
    if "i < length (x # xs)" for i
  proof (cases i)
    case 0
    with first ys show ?thesis by simp
  next
    case (Suc j)
    with that have "j < length xs" by simp
    with vals have "a ((t @ [ev x]) @ map ev (take j xs)) (ev (xs ! j)) = Inr (zs ! j)" by blast
    with Suc ys show ?thesis by simp
  qed
  with t' len ys show ?case by simp
qed

lemma read_data_values:
  assumes "read_data env t = (Return data, t')"
  shows "\<exists>junctions tanks pumps.
     ret_indices env t GetNodeJunctionIndex = Inr junctions \<and>
     ret_indices env (t @ GetNodeJunctionIndex # map GetNodePressure junctions)
       GetNodeTankIndex = Inr tanks \<and>
     ret_indices env
       (t @ GetNodeJunctionIndex # map GetNodePressure junctions
          @ GetNodeTankIndex # map GetNodeHydraulicHead tanks)
       GetLinkPumpIndex = Inr pumps \<and>
     t' = t @ GetNodeJunctionIndex # map GetNodePressure junctions
            @ GetNodeTankIndex # map GetNodeHydraulicHead tanks
            @ GetLinkPumpIndex # map GetLinkFlows pumps \<and>
     length (junction_pressures data) = length junctions \<and>
     (\<forall>i<length junctions.
        ret_float env ((t @ [GetNodeJunctionIndex]) @ map GetNodePressure (take i junctions))
          (GetNodePressure (junctions ! i)) = Inr (junction_pressures data ! i)) \<and>
     length (tank_heads data) = length tanks \<and>
     (\<forall>i<length tanks.
        ret_float env
          ((t @ GetNodeJunctionIndex # map GetNodePressure junctions @ [GetNodeTankIndex])
             @ map GetNodeHydraulicHead (take i tanks))
          (GetNodeHydraulicHead (tanks ! i)) = Inr (tank_heads data ! i)) \<and>
     length (pump_flows data) = length pumps \<and>
     (\<forall>i<length pumps.
        ret_float env
          ((t @ GetNodeJunctionIndex # map GetNodePressure junctions
              @ GetNodeTankIndex # map GetNodeHydraulicHead tanks @ [GetLinkPumpIndex])
             @ map GetLinkFlows (take i pumps))
          (GetLinkFlows (pumps ! i)) = Inr (pump_flows data ! i))"
proof -
  from assms obtain junctions t1 ps t2 tanks t3 hs t4 pumps t5 fs where
    1: "perform (ret_indices env) GetNodeJunctionIndex t = (Return junctions, t1)" and
    2: "collect (\<lambda>i. perform (ret_float env) (GetNodePressure i)) junctions t1 = (Return ps, t2)" and
    3: "perform (ret_indices env) GetNodeTankIndex t2 = (Return tanks, t3)" and
    4: "collect (\<lambda>i. perform (ret_float env) (GetNodeHydraulicHead i)) tanks t3 = (Return hs, t4)" and
    5: "perform (ret_indices env) GetLinkPumpIndex t4 = (Return pumps, t5)" and
    6: "collect (\<lambda>i. perform (ret_float env) (GetLinkFlows i)) pumps t5 = (Return fs, t')" and
    data: "data = \<lparr>junction_pressures = ps, tank_heads = hs, pump_flows = fs\<rparr>"
    unfolding read_data_def except_exit_Return_iff bind_Return_iff return_Return_iff
    by blast
  from 1 have a: "ret_indices env t GetNodeJunctionIndex = Inr junctions"
    "t1 = t @ [GetNodeJunctionIndex]" by (simp_all add: perform_Return_iff)
  from collect_perform_values [OF 2]
  have b: "t2 = t1 @ map GetNodePressure junctions" "length ps = length junctions"
    "\<forall>i<length junctions. ret_float env (t1 @ map GetNodePressure (take i junctions))
        (GetNodePressure (junctions ! i)) = Inr (ps ! i)"
    by simp_all
  from 3 have c: "ret_indices env t2 GetNodeTankIndex = Inr tanks" "t3 = t2 @ [GetNodeTankIndex]"
    by (simp_all add: perform_Return_iff)
  from collect_perform_values [OF 4]
  have d: "t4 = t3 @ map GetNodeHydraulicHead tanks" "length hs = length tanks"
    "\<forall>i<length tanks. ret_float env (t3 @ map GetNodeHydraulicHead (take i tanks))
        (GetNodeHydraulicHead (tanks ! i)) = Inr (hs ! i)"
    by simp_all
  from 5 have e: "ret_indices env t4 GetLinkPumpIndex = Inr pumps" "t5 = t4 @ [GetLinkPumpIndex]"
    by (simp_all add: perform_Return_iff)
  from collect_perform_values [OF 6]
  have f: "t' = t5 @ map GetLinkFlows pumps" "length fs = length pumps"
    "\<forall>i<length pumps. ret_float env (t5 @ map GetLinkFlows (take i pumps))
        (GetLinkFlows (pumps ! i)) = Inr (fs ! i)"
    by simp_all
  have t2: "t2 = t @ GetNodeJunctionIndex # map GetNodePressure junctions"
    using a(2) b(1) by simp
  have t3: "t3 = t @ GetNodeJunctionIndex # map GetNodePressure junctions @ [GetNodeTankIndex]"
    using t2 c(2) by simp
  have t4: "t4 = t @ GetNodeJunctionIndex # map GetNodePressure junctions
      @ GetNodeTankIndex # map GetNodeHydraulicHead tanks"
    using t3 d(1) by simp
  have t5: "t5 = t @ GetNodeJunctionIndex # map GetNodePressure junctions
      @ GetNodeTankIndex # map GetNodeHydraulicHead tanks @ [GetLinkPumpIndex]"
    using t4 e(2) by simp
  have t': "t' = t @ GetNodeJunctionIndex # map GetNodePressure junctions
      @ GetNodeTankIndex # map GetNodeHydraulicHead tanks
      @ GetLinkPumpIndex # map GetLinkFlows pumps"
    using t5 f(1) by simp
  show ?thesis
  proof (intro exI conjI)
    show "ret_indices env t GetNodeJunctionIndex = Inr junctions" by (rule a(1))
    show "ret_indices env (t @ GetNodeJunctionIndex # map GetNodePressure junctions)
        GetNodeTankIndex = Inr tanks"
      using c(1) unfolding t2 .
    show "ret_indices env
        (t @ GetNodeJunctionIndex # map GetNodePressure junctions
           @ GetNodeTankIndex # map GetNodeHydraulicHead tanks)
        GetLinkPumpIndex = Inr pumps"
      using e(1) unfolding t4 .
    show "t' = t @ GetNodeJunctionIndex # map GetNodePressure junctions
        @ GetNodeTankIndex # map GetNodeHydraulicHead tanks
        @ GetLinkPumpIndex # map GetLinkFlows pumps"
      by (rule t')
    show "length (junction_pressures data) = length junctions" using b(2) data by simp
    show "\<forall>i<length junctions.
        ret_float env ((t @ [GetNodeJunctionIndex]) @ map GetNodePressure (take i junctions))
          (GetNodePressure (junctions ! i)) = Inr (junction_pressures data ! i)"
      using b(3) unfolding a(2) data by simp
    show "length (tank_heads data) = length tanks" using d(2) data by simp
    show "\<forall>i<length tanks.
        ret_float env
          ((t @ GetNodeJunctionIndex # map GetNodePressure junctions @ [GetNodeTankIndex])
             @ map GetNodeHydraulicHead (take i tanks))
          (GetNodeHydraulicHead (tanks ! i)) = Inr (tank_heads data ! i)"
      using d(3) unfolding t3 data by simp
    show "length (pump_flows data) = length pumps" using f(2) data by simp
    show "\<forall>i<length pumps.
        ret_float env
          ((t @ GetNodeJunctionIndex # map GetNodePressure junctions
              @ GetNodeTankIndex # map GetNodeHydraulicHead tanks @ [GetLinkPumpIndex])
             @ map GetLinkFlows (take i pumps))
          (GetLinkFlows (pumps ! i)) = Inr (pump_flows data ! i)"
      using f(3) unfolding t5 data by simp
  qed
qed


lemma telemetry_block_written:
  assumes "block_written env base vals evs"
    and "\<forall>v. convert_to_registers env v = float32_registers v"
    and "length vals = length assets"
    and "\<forall>i<length assets.
           ret_float env (h @ map getter (take i assets)) (getter (assets ! i)) = Inr (vals ! i)"
  shows "telemetry_block env h getter assets base evs"
  unfolding telemetry_block_def
proof (intro conjI allI impI)
  from assms(1,3) show "length evs = length assets" by (simp add: block_written_def)
  fix i assume i: "i < length assets"
  with assms(1,3) obtain registers where
    r: "convert_to_registers env (vals ! i) = Inr registers"
       "evs ! i = WriteRegisters (base + 2 * i) registers"
    by (auto simp: block_written_def)
  from r(1) assms(2) have f: "float32_registers (vals ! i) = Inr registers" by simp
  from float32_registers_pair [OF f] obtain hi lo where "registers = [hi, lo]" by blast
  with r(2) f assms(4) i
  have "ret_float env (h @ map getter (take i assets)) (getter (assets ! i)) = Inr (vals ! i) \<and>
      float32_registers (vals ! i) = Inr [hi, lo] \<and>
      evs ! i = WriteRegisters (base + 2 * i) [hi, lo]"
    by simp
  then show "\<exists>v hi lo.
      ret_float env (h @ map getter (take i assets)) (getter (assets ! i)) = Inr v \<and>
      float32_registers v = Inr [hi, lo] \<and>
      evs ! i = WriteRegisters (base + 2 * i) [hi, lo]"
    by blast
qed

text \<open>
  Claim C7. When \<open>read_data\<close> is followed by \<open>write_data\<close>, as in every cycle, and
  the client's conversion is the float32 one, the telemetry of a run that returns is
  written as three blocks in order: junction pressures, tank heads, pump flows. In each
  block the \<open>i\<close>-th write carries the value that the engine returned for the \<open>i\<close>-th
  asset of its index list, encoded as an IEEE-754 32-bit float in two 16-bit registers,
  and starts at register 100 + 2i, 200 + 2i or 300 + 2i, so the value occupies that
  register and the next.
\<close>

theorem telemetry_float32_pairs_at_fixed_bases:
  assumes "read_data env t = (Return data, t1)"
    and "write_data env data t1 = (Return u, t2)"
    and "\<forall>v. convert_to_registers env v = float32_registers v"
  shows "\<exists>junctions tanks pumps js ts ps.
     ret_indices env t GetNodeJunctionIndex = Inr junctions \<and>
     ret_indices env (t @ GetNodeJunctionIndex # map GetNodePressure junctions)
       GetNodeTankIndex = Inr tanks \<and>
     ret_indices env
       (t @ GetNodeJunctionIndex # map GetNodePressure junctions
          @ GetNodeTankIndex # map GetNodeHydraulicHead tanks)
       GetLinkPumpIndex = Inr pumps \<and>
     t1 = t @ GetNodeJunctionIndex # map GetNodePressure junctions
            @ GetNodeTankIndex # map GetNodeHydraulicHead tanks
            @ GetLinkPumpIndex # map GetLinkFlows pumps \<and>
     t2 = t1 @ js @ ts @ ps \<and>
     telemetry_block env (t @ [GetNodeJunctionIndex]) GetNodePressure junctions 100 js \<and>
     telemetry_block env
       (t @ GetNodeJunctionIndex # map GetNodePressure junctions @ [GetNodeTankIndex])
       GetNodeHydraulicHead tanks 200 ts \<and>
     telemetry_block env
       (t @ GetNodeJunctionIndex # map GetNodePressure junctions
          @ GetNodeTankIndex # map GetNodeHydraulicHead tanks @ [GetLinkPumpIndex])
       GetLinkFlows pumps 300 ps"
proof -
  from read_data_values [OF assms(1)] obtain junctions tanks pumps where
    idx: "ret_indices env t GetNodeJunctionIndex = Inr junctions"
      "ret_indices env (t @ GetNodeJunctionIndex # map GetNodePressure junctions)
         GetNodeTankIndex = Inr tanks"
      "ret_indices env
         (t @ GetNodeJunctionIndex # map GetNodePressure junctions
            @ GetNodeTankIndex # map GetNodeHydraulicHead tanks)
         GetLinkPumpIndex = Inr pumps"
    and t1: "t1 = t @ GetNodeJunctionIndex # map GetNodePressure junctions
            @ GetNodeTankIndex # map GetNodeHydraulicHead tanks
            @ GetLinkPumpIndex # map GetLinkFlows pumps"
    and jv: "length (junction_pressures data) = length junctions"
      "\<forall>i<length junctions.
        ret_float env ((t @ [GetNodeJunctionIndex]) @ map GetNodePressure (take i junctions))
          (GetNodePressure (junctions ! i)) = Inr (junction_pressures data ! i)"
    and tv: "length (tank_heads data) = length tanks"
      "\<forall>i<length tanks.
        ret_float env
          ((t @ GetNodeJunctionIndex # map GetNodePressure junctions @ [GetNodeTankIndex])
             @ map GetNodeHydraulicHead (take i tanks))
          (GetNodeHydraulicHead (tanks ! i)) = Inr (tank_heads data ! i)"
    and pv: "length (pump_flows data) = length pumps"
      "\<forall>i<length pumps.
        ret_float env
          ((t @ GetNodeJunctionIndex # map GetNodePressure junctions
              @ GetNodeTankIndex # map GetNodeHydraulicHead tanks @ [GetLinkPumpIndex])
             @ map GetLinkFlows (take i pumps))
          (GetLinkFlows (pumps ! i)) = Inr (pump_flows data ! i)"
    by blast
  from write_data_Return [OF assms(2)] obtain js ts ps where
    1: "write_block env 100 (junction_pressures data) t1 = (Return (), t1 @ js)" and
    2: "write_block env 200 (tank_heads data) (t1 @ js) = (Return (), t1 @ js @ ts)" and
    3: "write_block env 300 (pump_flows data) (t1 @ js @ ts) = (Return (), t1 @ js @ ts @ ps)" and
    t2: "t2 = t1 @ js @ ts @ ps"
    by blast
  have js: "block_written env 100 (junction_pressures data) js"
    using write_block_Return [OF 1] by simp
  have ts: "block_written env 200 (tank_heads data) ts"
    using write_block_Return [OF 2] by simp
  have ps: "block_written env 300 (pump_flows data) ps"
    using write_block_Return [OF 3] by simp
  note bj = telemetry_block_written [OF js assms(3) jv]
  note bt = telemetry_block_written [OF ts assms(3) tv]
  note bp = telemetry_block_written [OF ps assms(3) pv]
  show ?thesis
    by (intro exI conjI) (rule idx t1 t2 bj bt bp)+
qed

lemma read_data_float32_client:
  "read_data float32_client [] =
     (Return \<lparr>junction_pressures = [1, 0], tank_heads = [0], pump_flows = [0]\<rparr>,
      [GetNodeJunctionIndex, GetNodePressure 1, GetNodePressure 2,
       GetNodeTankIndex, GetNodeHydraulicHead 3, GetLinkPumpIndex, GetLinkFlows 3])"
  by (simp add: read_data_def except_exit_def bind_def perform_def return_def
      float32_client_def scenario_a_def)

lemma write_data_float32_client:
  "write_data float32_client
     \<lparr>junction_pressures = [1, 0], tank_heads = [0], pump_flows = [0]\<rparr> h =
     (Return (),
      h @ [WriteRegisters 100 [16256, 0], WriteRegisters 102 [0, 0],
           WriteRegisters 200 [0, 0], WriteRegisters 300 [0, 0]])"
  by (simp add: write_data_def write_block_def except_exit_def bind_def perform_def
      pure_call_def return_def float32_client_def scenario_a_def float32_registers_values
      enumerate_eq_zip upt_rec)

text \<open>Two junctions with pressures 1.0 and 0.0, one tank and one pump.\<close>

theorem telemetry_float32_pairs_at_fixed_bases_witness:
  "read_data float32_client [] =
     (Return \<lparr>junction_pressures = [1, 0], tank_heads = [0], pump_flows = [0]\<rparr>,
      [GetNodeJunctionIndex, GetNodePressure 1, GetNodePressure 2,
       GetNodeTankIndex, GetNodeHydraulicHead 3, GetLinkPumpIndex, GetLinkFlows 3]) \<and>
   write_data float32_client
     \<lparr>junction_pressures = [1, 0], tank_heads = [0], pump_flows = [0]\<rparr>
     [GetNodeJunctionIndex, GetNodePressure 1, GetNodePressure 2,
      GetNodeTankIndex, GetNodeHydraulicHead 3, GetLinkPumpIndex, GetLinkFlows 3] =
     (Return (),
      [GetNodeJunctionIndex, GetNodePressure 1, GetNodePressure 2,
       GetNodeTankIndex, GetNodeHydraulicHead 3, GetLinkPumpIndex, GetLinkFlows 3] @
      [WriteRegisters 100 [16256, 0], WriteRegisters 102 [0, 0],
       WriteRegisters 200 [0, 0], WriteRegisters 300 [0, 0]]) \<and>
   (\<exists>js ts ps.
      [WriteRegisters 100 [16256, 0], WriteRegisters 102 [0, 0],
       WriteRegisters 200 [0, 0], WriteRegisters 300 [0, 0]] = js @ ts @ ps \<and>
      telemetry_block float32_client [GetNodeJunctionIndex] GetNodePressure [1, 2] 100 js \<and>
      telemetry_block float32_client
        [GetNodeJunctionIndex, GetNodePressure 1, GetNodePressure 2, GetNodeTankIndex]
        GetNodeHydraulicHead [3] 200 ts \<and>
      telemetry_block float32_client
        [GetNodeJunctionIndex, GetNodePressure 1, GetNodePressure 2,
         GetNodeTankIndex, GetNodeHydraulicHead 3, GetLinkPumpIndex]
        GetLinkFlows [3] 300 ps)"
proof -
  let ?reads = "[GetNodeJunctionIndex, GetNodePressure 1, GetNodePressure 2,
       GetNodeTankIndex, GetNodeHydraulicHead 3, GetLinkPumpIndex, GetLinkFlows 3]"
  let ?writes = "[WriteRegisters 100 [16256, 0], WriteRegisters 102 [0, 0],
       WriteRegisters 200 [0, 0], WriteRegisters 300 [0, 0]]"
  have codec: "\<forall>v. convert_to_registers float32_client v = float32_registers v"
    by (simp add: float32_client_def)
  note w = write_data_float32_client [of ?reads]
  from telemetry_float32_pairs_at_fixed_bases [OF read_data_float32_client w codec]
  obtain junctions tanks pumps js ts ps where
    j: "ret_indices float32_client [] GetNodeJunctionIndex = Inr junctions" and
    k: "ret_indices float32_client ([] @ GetNodeJunctionIndex # map GetNodePressure junctions)
       GetNodeTankIndex = Inr tanks" and
    p: "ret_indices float32_client
       ([] @ GetNodeJunctionIndex # map GetNodePressure junctions
          @ GetNodeTankIndex # map GetNodeHydraulicHead tanks)
       GetLinkPumpIndex = Inr pumps" and
    t2: "?reads @ ?writes = ?reads @ js @ ts @ ps" and
    bj: "telemetry_block float32_client ([] @ [GetNodeJunctionIndex]) GetNodePressure
       junctions 100 js" and
    bt: "telemetry_block float32_client
       ([] @ GetNodeJunctionIndex # map GetNodePressure junctions @ [GetNodeTankIndex])
       GetNodeHydraulicHead tanks 200 ts" and
    bp: "telemetry_block float32_client
       ([] @ GetNodeJunctionIndex # map GetNodePressure junctions
          @ GetNodeTankIndex # map GetNodeHydraulicHead tanks @ [GetLinkPumpIndex])
       GetLinkFlows pumps 300 ps"
    by blast
  from j have junctions: "junctions = [1, 2]"
    by (simp add: float32_client_def scenario_a_def)
  from k have tanks: "tanks = [3]"
    by (simp add: float32_client_def scenario_a_def)
  from p have pumps: "pumps = [3]"
    by (simp add: float32_client_def scenario_a_def)
  from t2 have "?writes = js @ ts @ ps" by (simp only: same_append_eq)
  moreover from bj have "telemetry_block float32_client [GetNodeJunctionIndex]
      GetNodePressure [1, 2] 100 js"
    by (simp add: junctions)
  moreover from bt have "telemetry_block float32_client
      [GetNodeJunctionIndex, GetNodePressure 1, GetNodePressure 2, GetNodeTankIndex]
      GetNodeHydraulicHead [3] 200 ts"
    by (simp add: junctions tanks)
  moreover from bp have "telemetry_block float32_client
      [GetNodeJunctionIndex, GetNodePressure 1, GetNodePressure 2,
       GetNodeTankIndex, GetNodeHydraulicHead 3, GetLinkPumpIndex]
      GetLinkFlows [3] 300 ps"
    by (simp add: junctions tanks pumps)
  ultimately have "\<exists>js ts ps. ?writes = js @ ts @ ps \<and>
      telemetry_block float32_client [GetNodeJunctionIndex] GetNodePressure [1, 2] 100 js \<and>
      telemetry_block float32_client
        [GetNodeJunctionIndex, GetNodePressure 1, GetNodePressure 2, GetNodeTankIndex]
        GetNodeHydraulicHead [3] 200 ts \<and>
      telemetry_block float32_client
        [GetNodeJunctionIndex, GetNodePressure 1, GetNodePressure 2,
         GetNodeTankIndex, GetNodeHydraulicHead 3, GetLinkPumpIndex]
        GetLinkFlows [3] 300 ps"
    by blast
  with read_data_float32_client w show ?thesis by (intro conjI)
qed

text \<open>
  Claim C6 says that the address ranges of the quantity classes never overlap for asset
  counts within the documented maxima (100 register pairs per telemetry block). With 51
  junctions and one tank, \<open>write_data\<close> writes register 200 twice: with the pressure of
  the junction at position 50, then with the head of the tank at position 0.
\<close>

theorem address_ranges_overlap_counterexample:
  "length (junction_pressures data_51_junctions) \<le> 100 \<and>
   length (tank_heads data_51_junctions) \<le> 100 \<and>
   fst (write_data scenario_a data_51_junctions []) = Return () \<and>
   snd (write_data scenario_a data_51_junctions []) ! 50 = WriteRegisters 200 [16256, 0] \<and>
   snd (write_data scenario_a data_51_junctions []) ! 51 = WriteRegisters 200 [0, 0] \<and>
   length (snd (write_data scenario_a data_51_junctions [])) = 52"
  by (simp add: write_data_all_ok [OF scenario_a_conversion scenario_a_ret_none]
      data_51_junctions_def nth_append nth_enumerate_eq)

text \<open>
  Claim C6, amended. For a network with at most 50 junctions and at most 50 tanks (and
  any number of pumps), and a conversion that yields two registers per value, the
  addresses of the five quantity classes are pairwise disjoint: the coils 0 to 99 read
  for the pipe statuses (a table of their own), the holding registers 0 to 99 read for
  the pump settings, and the registers written for the junction pressures (from 100),
  the tank heads (from 200) and the pump flows (from 300).
\<close>

theorem address_ranges_disjoint_up_to_50:
  assumes "write_data env data t = (Return u, t')"
    and "\<forall>v registers. convert_to_registers env v = Inr registers \<longrightarrow> length registers = 2"
    and "length (junction_pressures data) \<le> 50"
    and "length (tank_heads data) \<le> 50"
  shows "\<exists>js ts ps.
           t' = t @ js @ ts @ ps \<and>
           block_written env 100 (junction_pressures data) js \<and>
           block_written env 200 (tank_heads data) ts \<and>
           block_written env 300 (pump_flows data) ps \<and>
           footprints js \<inter> footprints ts = {} \<and>
           footprints js \<inter> footprints ps = {} \<and>
           footprints ts \<inter> footprints ps = {} \<and>
           footprints [ReadHoldingRegisters 0 100] \<inter>
             (footprints js \<union> footprints ts \<union> footprints ps) = {} \<and>
           footprints [ReadCoils 0 100] \<inter>
             (footprints [ReadHoldingRegisters 0 100] \<union>
              footprints js \<union> footprints ts \<union> footprints ps) = {}"
proof -
  from write_data_Return [OF assms(1)] obtain js ts ps where
    1: "write_block env 100 (junction_pressures data) t = (Return (), t @ js)" and
    2: "write_block env 200 (tank_heads data) (t @ js) = (Return (), t @ js @ ts)" and
    3: "write_block env 300 (pump_flows data) (t @ js @ ts) = (Return (), t @ js @ ts @ ps)" and
    t': "t' = t @ js @ ts @ ps"
    by blast
  have js: "block_written env 100 (junction_pressures data) js"
    using write_block_Return [OF 1] by simp
  have ts: "block_written env 200 (tank_heads data) ts"
    using write_block_Return [OF 2] by simp
  have ps: "block_written env 300 (pump_flows data) ps"
    using write_block_Return [OF 3] by simp
  from assms(2) have width: "\<And>v registers.
      convert_to_registers env v = Inr registers \<Longrightarrow> length registers = 2"
    by blast
  note fp = footprints_block [OF js width] footprints_block [OF ts width]
    footprints_block [OF ps width]
  have reads: "footprints [ReadHoldingRegisters 0 100] = Pair HoldingRegisters ` {0..<100}"
    "footprints [ReadCoils 0 100] = Pair Coils ` {0..<100}"
    by (simp_all add: footprints_def)
  have "footprints js \<inter> footprints ts = {}" "footprints js \<inter> footprints ps = {}"
    "footprints ts \<inter> footprints ps = {}"
    "footprints [ReadHoldingRegisters 0 100] \<inter>
       (footprints js \<union> footprints ts \<union> footprints ps) = {}"
    "footprints [ReadCoils 0 100] \<inter>
       (footprints [ReadHoldingRegisters 0 100] \<union>
        footprints js \<union> footprints ts \<union> footprints ps) = {}"
    using assms(3,4) by (auto simp: fp reads)
  with t' js ts ps show ?thesis by blast
qed

text \<open>The telemetry of two junctions, one tank and one pump.\<close>

theorem address_ranges_disjoint_up_to_50_witness:
  "write_data scenario_a sample_data [] =
     (Return (),
      [WriteRegisters 100 [16256, 0], WriteRegisters 102 [0, 0],
       WriteRegisters 200 [0, 0], WriteRegisters 300 [16256, 0]]) \<and>
   length (junction_pressures sample_data) \<le> 50 \<and>
   length (tank_heads sample_data) \<le> 50 \<and>
   (\<exists>js ts ps.
      [WriteRegisters 100 [16256, 0], WriteRegisters 102 [0, 0],
       WriteRegisters 200 [0, 0], WriteRegisters 300 [16256, 0]] = [] @ js @ ts @ ps \<and>
      block_written scenario_a 100 (junction_pressures sample_data) js \<and>
      block_written scenario_a 200 (tank_heads sample_data) ts \<and>
      block_written scenario_a 300 (pump_flows sample_data) ps \<and>
      footprints js \<inter> footprints ts = {} \<and>
      footprints js \<inter> footprints ps = {} \<and>
      footprints ts \<inter> footprints ps = {})"
proof -
  have a: "length (junction_pressures sample_data) \<le> 50"
    and b: "length (tank_heads sample_data) \<le> 50"
    by (simp_all add: sample_data_def)
  from address_ranges_disjoint_up_to_50 [OF write_data_sample scenario_a_conversion_width a b]
    write_data_sample a b
  show ?thesis by blast
qed

subsection \<open>Applying the control frame\<close>

lemma bind_assoc: "bind (bind m f) g = bind m (\<lambda>x. bind (f x) g)"
  by (rule ext) (simp add: bind_def split: prod.splits outcome.splits)

lemma cycle_phases:
  "cycle env =
     bind (controls_phase env) (\<lambda>_.
     bind (perform (ret_none env) RunHydraulicAnalysis) (\<lambda>_. telemetry_phase env))"
  by (simp add: cycle_def controls_phase_def telemetry_phase_def bind_assoc)

lemma for_each_perform_Return:
  "for_each (\<lambda>x. perform a (ev x)) xs t = (Return u, t') \<Longrightarrow> t' = t @ map ev xs"
proof (induction xs arbitrary: t)
  case Nil
  then show ?case by (simp add: return_def)
next
  case (Cons x xs)
  from Cons.prems have "for_each (\<lambda>x. perform a (ev x)) xs (t @ [ev x]) = (Return u, t')"
    by (auto simp: bind_Return_iff perform_Return_iff)
  from Cons.IH [OF this] show ?case by simp
qed

lemma for_each_perform_all_ok:
  assumes "\<And>h x. a h (ev x) = Inr ()"
  shows "for_each (\<lambda>x. perform a (ev x)) xs t = (Return (), t @ map ev xs)"
  by (rule for_each_all_Return) (simp add: perform_def assms)

lemma collect_perform_Return:
  "collect (\<lambda>x. perform a (ev x)) xs t = (Return ys, t') \<Longrightarrow>
     t' = t @ map ev xs \<and> length ys = length xs"
proof (induction xs arbitrary: t ys)
  case Nil
  then show ?case by (simp add: return_def)
next
  case (Cons x xs)
  from Cons.prems obtain y zs where
    1: "collect (\<lambda>x. perform a (ev x)) xs (t @ [ev x]) = (Return zs, t')" and ys: "ys = y # zs"
    by (auto simp: bind_Return_iff perform_Return_iff return_Return_iff)
  from Cons.IH [OF 1] ys show ?case by simp
qed

lemma for_each_status_Return:
  "for_each (\<lambda>(i, status). perform a (SetLinkStatus i status)) xs t = (Return u, t') \<Longrightarrow>
     t' = t @ map (\<lambda>(i, s). SetLinkStatus i s) xs"
  unfolding split_def by (rule for_each_perform_Return)

lemma for_each_settings_Return:
  "for_each (\<lambda>(i, setting). perform a (SetLinkSettings i setting)) xs t = (Return u, t') \<Longrightarrow>
     t' = t @ map (\<lambda>(i, v). SetLinkSettings i v) xs"
  unfolding split_def by (rule for_each_perform_Return)

lemma set_controls_Return:
  assumes "set_controls env ctl t = (Return u, t')"
  shows "\<exists>pipes pumps.
     ret_indices env t GetLinkPipeIndex = Inr pipes \<and>
     ret_indices env
       (t @ GetLinkPipeIndex # map (\<lambda>(i, s). SetLinkStatus i s) (zip pipes (pipe_statuses ctl)))
       GetLinkPumpIndex = Inr pumps \<and>
     t' = t @ GetLinkPipeIndex # map (\<lambda>(i, s). SetLinkStatus i s) (zip pipes (pipe_statuses ctl))
            @ GetLinkPumpIndex # map (\<lambda>(i, v). SetLinkSettings i v) (zip pumps (pump_settings ctl))"
proof -
  from assms have body: "bind (perform (ret_indices env) GetLinkPipeIndex) (\<lambda>pipes.
        bind (for_each (\<lambda>(i, status). perform (ret_none env) (SetLinkStatus i status))
               (zip pipes (pipe_statuses ctl))) (\<lambda>_.
        bind (perform (ret_indices env) GetLinkPumpIndex) (\<lambda>pumps.
        for_each (\<lambda>(i, setting). perform (ret_none env) (SetLinkSettings i setting))
          (zip pumps (pump_settings ctl))))) t = (Return u, t')"
    by (simp only: set_controls_def except_exit_Return_iff)
  then obtain pipes t1 where
    1: "perform (ret_indices env) GetLinkPipeIndex t = (Return pipes, t1)" and
    r1: "bind (for_each (\<lambda>(i, status). perform (ret_none env) (SetLinkStatus i status))
               (zip pipes (pipe_statuses ctl))) (\<lambda>_.
        bind (perform (ret_indices env) GetLinkPumpIndex) (\<lambda>pumps.
        for_each (\<lambda>(i, setting). perform (ret_none env) (SetLinkSettings i setting))
          (zip pumps (pump_settings ctl)))) t1 = (Return u, t')"
    unfolding bind_Return_iff [of "perform (ret_indices env) GetLinkPipeIndex"] by blast
  from r1 obtain v t2 where
    2: "for_each (\<lambda>(i, status). perform (ret_none env) (SetLinkStatus i status))
               (zip pipes (pipe_statuses ctl)) t1 = (Return v, t2)" and
    r2: "bind (perform (ret_indices env) GetLinkPumpIndex) (\<lambda>pumps.
        for_each (\<lambda>(i, setting). perform (ret_none env) (SetLinkSettings i setting))
          (zip pumps (pump_settings ctl))) t2 = (Return u, t')"
    unfolding bind_Return_iff [of "for_each _ _"] by blast
  from r2 obtain pumps t3 where
    3: "perform (ret_indices env) GetLinkPumpIndex t2 = (Return pumps, t3)" and
    4: "for_each (\<lambda>(i, setting). perform (ret_none env) (SetLinkSettings i setting))
          (zip pumps (pump_settings ctl)) t3 = (Return u, t')"
    unfolding bind_Return_iff [of "perform (ret_indices env) GetLinkPumpIndex"] by blast
  from 1 have a: "ret_indices env t GetLinkPipeIndex = Inr pipes" "t1 = t @ [GetLinkPipeIndex]"
    by (simp_all add: perform_Return_iff)
  from for_each_status_Return [OF 2]
  have b: "t2 = t1 @ map (\<lambda>(i, s). SetLinkStatus i s) (zip pipes (pipe_statuses ctl))" .
  from 3 have c: "ret_indices env t2 GetLinkPumpIndex = Inr pumps" "t3 = t2 @ [GetLinkPumpIndex]"
    by (simp_all add: perform_Return_iff)
  from for_each_settings_Return [OF 4]
  have d: "t' = t3 @ map (\<lambda>(i, v). SetLinkSettings i v) (zip pumps (pump_settings ctl))" .
  from a b c d show ?thesis by simp
qed

lemma set_controls_all_ok:
  assumes "ret_indices env t GetLinkPipeIndex = Inr pipes"
    and "ret_indices env
       (t @ GetLinkPipeIndex # map (\<lambda>(i, s). SetLinkStatus i s) (zip pipes (pipe_statuses ctl)))
       GetLinkPumpIndex = Inr pumps"
    and "\<And>h i s. ret_none env h (SetLinkStatus i s) = Inr ()"
    and "\<And>h i v. ret_none env h (SetLinkSettings i v) = Inr ()"
  shows "set_controls env ctl t =
     (Return (),
      t @ GetLinkPipeIndex # map (\<lambda>(i, s). SetLinkStatus i s) (zip pipes (pipe_statuses ctl))
        @ GetLinkPumpIndex # map (\<lambda>(i, v). SetLinkSettings i v) (zip pumps (pump_settings ctl)))"
proof -
  have 1: "for_each (\<lambda>(i, status). perform (ret_none env) (SetLinkStatus i status)) xs h =
      (Return (), h @ map (\<lambda>(i, s). SetLinkStatus i s) xs)" for xs h
    unfolding split_def by (rule for_each_perform_all_ok) (rule assms(3))
  have 2: "for_each (\<lambda>(i, setting). perform (ret_none env) (SetLinkSettings i setting)) xs h =
      (Return (), h @ map (\<lambda>(i, v). SetLinkSettings i v) xs)" for xs h
    unfolding split_def by (rule for_each_perform_all_ok) (rule assms(4))
  show ?thesis
    using assms(1,2)
    by (simp add: set_controls_def except_exit_def bind_def perform_def 1 2)
qed

text \<open>
  Claim C5, amended. \<open>set_controls\<close> pairs the pipe indices with the pipe statuses and
  the pump indices with the pump settings, position by position, up to the shorter of
  the two lists. Values beyond the asset count are ignored. When every engine call
  succeeds the function returns normally whatever the lengths: with fewer values than
  assets it applies the values present to the first assets and leaves the others alone.
\<close>

theorem set_controls_applies_paired_values:
  assumes "ret_indices env t GetLinkPipeIndex = Inr pipes"
    and "ret_indices env
       (t @ GetLinkPipeIndex # map (\<lambda>(i, s). SetLinkStatus i s) (zip pipes (pipe_statuses ctl)))
       GetLinkPumpIndex = Inr pumps"
    and "\<forall>h i s. ret_none env h (SetLinkStatus i s) = Inr ()"
    and "\<forall>h i v. ret_none env h (SetLinkSettings i v) = Inr ()"
  shows "set_controls env ctl t =
           (Return (),
            t @ GetLinkPipeIndex # map (\<lambda>(i, s). SetLinkStatus i s) (zip pipes (pipe_statuses ctl))
              @ GetLinkPumpIndex # map (\<lambda>(i, v). SetLinkSettings i v) (zip pumps (pump_settings ctl))) \<and>
         length (zip pipes (pipe_statuses ctl)) = min (length pipes) (length (pipe_statuses ctl)) \<and>
         length (zip pumps (pump_settings ctl)) = min (length pumps) (length (pump_settings ctl)) \<and>
         zip pipes (pipe_statuses ctl) = zip pipes (take (length pipes) (pipe_statuses ctl)) \<and>
         zip pumps (pump_settings ctl) = zip pumps (take (length pumps) (pump_settings ctl))"
proof -
  have cut: "zip xs ys = zip xs (take (length xs) ys)" for xs :: "int list" and ys :: "'b list"
  proof (induction xs arbitrary: ys)
    case Nil
    show ?case by simp
  next
    case (Cons x xs)
    then show ?case by (cases ys) simp_all
  qed
  from assms(3) have s: "\<And>h i s. ret_none env h (SetLinkStatus i s) = Inr ()" by blast
  from assms(4) have v: "\<And>h i v. ret_none env h (SetLinkSettings i v) = Inr ()" by blast
  note run = set_controls_all_ok [OF assms(1,2) s v]
  show ?thesis
  proof (intro conjI)
    show "zip pipes (pipe_statuses ctl) = zip pipes (take (length pipes) (pipe_statuses ctl))"
      by (rule cut)
    show "zip pumps (pump_settings ctl) = zip pumps (take (length pumps) (pump_settings ctl))"
      by (rule cut)
  qed (simp_all add: run)
qed

lemma set_controls_scenario_a:
  "set_controls scenario_a \<lparr>pipe_statuses = [0, 1], pump_settings = [3 / 2, 1 / 2]\<rparr> [] =
     (Return (), [GetLinkPipeIndex, SetLinkStatus 1 0, SetLinkStatus 2 1,
                  GetLinkPumpIndex, SetLinkSettings 3 (3 / 2)])"
  by (simp add: set_controls_def except_exit_def bind_def perform_def return_def scenario_a_def)

text \<open>Two pipes and one pump, a frame with two statuses and two settings.\<close>

theorem set_controls_applies_paired_values_witness:
  "set_controls scenario_a \<lparr>pipe_statuses = [0, 1], pump_settings = [3 / 2, 1 / 2]\<rparr> [] =
     (Return (), [GetLinkPipeIndex, SetLinkStatus 1 0, SetLinkStatus 2 1,
                  GetLinkPumpIndex, SetLinkSettings 3 (3 / 2)])"
proof -
  have a: "ret_indices scenario_a [] GetLinkPipeIndex = Inr [1, 2]"
    by (simp add: scenario_a_def)
  have b: "ret_indices scenario_a
       ([] @ GetLinkPipeIndex # map (\<lambda>(i, s). SetLinkStatus i s)
          (zip [1, 2] (pipe_statuses \<lparr>pipe_statuses = [0, 1], pump_settings = [3 / 2, 1 / 2]\<rparr>)))
       GetLinkPumpIndex = Inr [3]"
    by (simp add: scenario_a_def)
  have c: "\<forall>h i s. ret_none scenario_a h (SetLinkStatus i s) = Inr ()"
    and d: "\<forall>h i v. ret_none scenario_a h (SetLinkSettings i v) = Inr ()"
    by (simp_all add: scenario_a_def)
  from set_controls_applies_paired_values [OF a b c d] show ?thesis by simp
qed

text \<open>
  Claim C5 says that a frame with fewer pipe statuses than pipes makes applying it fail.
  With two pipes and one pump, a frame with one status and no setting is applied without
  failure: the first pipe is set and nothing else.
\<close>

theorem missing_values_not_fatal_counterexample:
  "ret_indices scenario_a [] GetLinkPipeIndex = Inr [1, 2] \<and>
   ret_indices scenario_a [GetLinkPipeIndex, SetLinkStatus 1 1] GetLinkPumpIndex = Inr [3] \<and>
   set_controls scenario_a \<lparr>pipe_statuses = [1], pump_settings = []\<rparr> [] =
     (Return (), [GetLinkPipeIndex, SetLinkStatus 1 1, GetLinkPumpIndex])"
  by (simp add: set_controls_def except_exit_def bind_def perform_def return_def scenario_a_def)

subsection \<open>One cycle\<close>

lemma emits_controls_phase: "emits before_step (controls_phase env)"
  unfolding controls_phase_def get_controls_def set_controls_def
  by (intro emits_intros) (simp_all add: before_step_def)

lemma emits_telemetry_phase: "emits after_step (telemetry_phase env)"
  unfolding telemetry_phase_def read_data_def write_data_def write_block_def
  by (intro emits_intros) (simp_all add: after_step_def)

lemma cycle_order_before:
  "list_all before_step e1 \<Longrightarrow> cycle_order False (e1 @ es) = cycle_order False es"
  by (induction e1) (simp_all add: before_step_def)

lemma cycle_order_after: "list_all after_step e3 \<Longrightarrow> cycle_order True e3"
  by (induction e3) (simp_all add: after_step_def)

lemma snd_perform: "snd (perform a ev t) = t @ [ev]"
  by (simp add: perform_def split: sum.splits)

lemma cycle_ordered:
  "\<exists>evs. snd (cycle env t) = t @ evs \<and> cycle_order False evs"
proof -
  obtain r1 t1 where p1: "controls_phase env t = (r1, t1)"
    by (cases "controls_phase env t")
  from emitsD [OF emits_controls_phase, of env t] p1
  obtain e1 where e1: "t1 = t @ e1" "list_all before_step e1" by auto
  obtain r2 t2 where p2: "perform (ret_none env) RunHydraulicAnalysis t1 = (r2, t2)"
    by (cases "perform (ret_none env) RunHydraulicAnalysis t1")
  with snd_perform [of "ret_none env" RunHydraulicAnalysis t1]
  have t2: "t2 = t1 @ [RunHydraulicAnalysis]" by simp
  from emitsD [OF emits_telemetry_phase, of env t2]
  obtain e3 where e3: "snd (telemetry_phase env t2) = t2 @ e3" "list_all after_step e3" by auto
  have stop1: "cycle_order False e1"
    using cycle_order_before [OF e1(2), of "[]"] by simp
  have stop2: "cycle_order False (e1 @ [RunHydraulicAnalysis])"
    using cycle_order_before [OF e1(2), of "[RunHydraulicAnalysis]"] by simp
  have full: "cycle_order False (e1 @ RunHydraulicAnalysis # e3)"
    using cycle_order_before [OF e1(2), of "RunHydraulicAnalysis # e3"] cycle_order_after [OF e3(2)]
    by simp
  show ?thesis
  proof (cases r1)
    case (Return x)
    show ?thesis
    proof (cases r2)
      case r2: (Return y)
      have "snd (cycle env t) = t @ (e1 @ RunHydraulicAnalysis # e3)"
        using p1 p2 Return r2 e1(1) t2 e3(1) by (simp add: cycle_phases bind_def)
      with full show ?thesis by blast
    next
      case (Raise e)
      have "snd (cycle env t) = t @ (e1 @ [RunHydraulicAnalysis])"
        using p1 p2 Return Raise e1(1) t2 by (simp add: cycle_phases bind_def)
      with stop2 show ?thesis by blast
    next
      case OutOfFuel
      have "snd (cycle env t) = t @ (e1 @ [RunHydraulicAnalysis])"
        using p1 p2 Return OutOfFuel e1(1) t2 by (simp add: cycle_phases bind_def)
      with stop2 show ?thesis by blast
    qed
  next
    case (Raise e)
    have "snd (cycle env t) = t @ e1"
      using p1 Raise e1(1) by (simp add: cycle_phases bind_def)
    with stop1 show ?thesis by blast
  next
    case OutOfFuel
    have "snd (cycle env t) = t @ e1"
      using p1 OutOfFuel e1(1) by (simp add: cycle_phases bind_def)
    with stop1 show ?thesis by blast
  qed
qed


lemma cycle_scenario_a:
  "cycle scenario_a [] =
     (Return (),
      [GetTimeSimulationDuration, GetTimeHydraulicStep, SetTimeSimulationDuration 2,
       ReadCoils 0 100, ReadHoldingRegisters 0 100,
       GetLinkPipeIndex, SetLinkStatus 1 0, SetLinkStatus 2 1,
       GetLinkPumpIndex, SetLinkSettings 3 (3 / 2),
       RunHydraulicAnalysis,
       GetNodeJunctionIndex, GetNodePressure 1, GetNodePressure 2,
       GetNodeTankIndex, GetNodeHydraulicHead 3,
       GetLinkPumpIndex, GetLinkFlows 3,
       WriteRegisters 100 [0, 0], WriteRegisters 102 [0, 0],
       WriteRegisters 200 [0, 0], WriteRegisters 300 [0, 0],
       NextHydraulicAnalysisStep, Sleep 1])"
  by (simp add: cycle_def get_controls_def set_controls_def read_data_def write_data_def
      write_block_def except_exit_def bind_def perform_def pure_call_def return_def
      scenario_a_def decode_pipe_status_def decode_pump_setting_values enumerate_eq_zip upt_rec)

lemma read_data_Return:
  assumes "read_data env t = (Return data, t')"
  shows "\<exists>junctions tanks pumps.
     t' = t @ GetNodeJunctionIndex # map GetNodePressure junctions
            @ GetNodeTankIndex # map GetNodeHydraulicHead tanks
            @ GetLinkPumpIndex # map GetLinkFlows pumps \<and>
     ret_indices env t GetNodeJunctionIndex = Inr junctions \<and>
     length (junction_pressures data) = length junctions \<and>
     length (tank_heads data) = length tanks \<and>
     length (pump_flows data) = length pumps"
proof -
  from assms obtain junctions t1 ps t2 tanks t3 hs t4 pumps t5 fs where
    1: "perform (ret_indices env) GetNodeJunctionIndex t = (Return junctions, t1)" and
    2: "collect (\<lambda>i. perform (ret_float env) (GetNodePressure i)) junctions t1 = (Return ps, t2)" and
    3: "perform (ret_indices env) GetNodeTankIndex t2 = (Return tanks, t3)" and
    4: "collect (\<lambda>i. perform (ret_float env) (GetNodeHydraulicHead i)) tanks t3 = (Return hs, t4)" and
    5: "perform (ret_indices env) GetLinkPumpIndex t4 = (Return pumps, t5)" and
    6: "collect (\<lambda>i. perform (ret_float env) (GetLinkFlows i)) pumps t5 = (Return fs, t')" and
    data: "data = \<lparr>junction_pressures = ps, tank_heads = hs, pump_flows = fs\<rparr>"
    unfolding read_data_def except_exit_Return_iff bind_Return_iff return_Return_iff
    by blast
  from 1 have a: "ret_indices env t GetNodeJunctionIndex = Inr junctions"
    "t1 = t @ [GetNodeJunctionIndex]" by (simp_all add: perform_Return_iff)
  from collect_perform_Return [OF 2]
  have b: "t2 = t1 @ map GetNodePressure junctions" "length ps = length junctions" by simp_all
  from 3 have c: "t3 = t2 @ [GetNodeTankIndex]" by (simp add: perform_Return_iff)
  from collect_perform_Return [OF 4]
  have d: "t4 = t3 @ map GetNodeHydraulicHead tanks" "length hs = length tanks" by simp_all
  from 5 have e: "t5 = t4 @ [GetLinkPumpIndex]" by (simp add: perform_Return_iff)
  from collect_perform_Return [OF 6]
  have f: "t' = t5 @ map GetLinkFlows pumps" "length fs = length pumps" by simp_all
  from a b c d e f data
  have "t' = t @ GetNodeJunctionIndex # map GetNodePressure junctions
            @ GetNodeTankIndex # map GetNodeHydraulicHead tanks
            @ GetLinkPumpIndex # map GetLinkFlows pumps \<and>
     ret_indices env t GetNodeJunctionIndex = Inr junctions \<and>
     length (junction_pressures data) = length junctions \<and>
     length (tank_heads data) = length tanks \<and>
     length (pump_flows data) = length pumps"
    by simp
  then show ?thesis by blast
qed

lemma block_written_writes: "block_written env base vals evs \<Longrightarrow> list_all is_register_write evs"
  by (auto simp: block_written_def list_all_length)

lemma write_data_Return_writes:
  assumes "write_data env data t = (Return u, t')"
  shows "\<exists>writes. t' = t @ writes \<and> list_all is_register_write writes"
proof -
  from write_data_Return [OF assms] obtain js ts ps where
    1: "write_block env 100 (junction_pressures data) t = (Return (), t @ js)" and
    2: "write_block env 200 (tank_heads data) (t @ js) = (Return (), t @ js @ ts)" and
    3: "write_block env 300 (pump_flows data) (t @ js @ ts) = (Return (), t @ js @ ts @ ps)" and
    t': "t' = t @ js @ ts @ ps"
    by blast
  from write_block_Return [OF 1] write_block_Return [OF 2] write_block_Return [OF 3]
  have "list_all is_register_write js" "list_all is_register_write ts"
    "list_all is_register_write ps"
    by (auto dest: block_written_writes)
  with t' have "t' = t @ (js @ ts @ ps) \<and> list_all is_register_write (js @ ts @ ps)" by simp
  then show ?thesis by blast
qed

lemma telemetry_phase_Return:
  assumes "telemetry_phase env t = (Return u, t')"
  shows "\<exists>junctions tanks pumps writes.
     t' = t @ GetNodeJunctionIndex # map GetNodePressure junctions
            @ GetNodeTankIndex # map GetNodeHydraulicHead tanks
            @ GetLinkPumpIndex # map GetLinkFlows pumps
            @ writes @ [NextHydraulicAnalysisStep, Sleep 1] \<and>
     list_all is_register_write writes"
proof -
  from assms obtain data t1 v t2 w t3 where
    1: "read_data env t = (Return data, t1)" and
    2: "write_data env data t1 = (Return v, t2)" and
    3: "perform (ret_none env) NextHydraulicAnalysisStep t2 = (Return w, t3)" and
    4: "perform (ret_none env) (Sleep 1) t3 = (Return u, t')"
    unfolding telemetry_phase_def bind_Return_iff by blast
  from read_data_Return [OF 1] obtain junctions tanks pumps where
    a: "t1 = t @ GetNodeJunctionIndex # map GetNodePressure junctions
            @ GetNodeTankIndex # map GetNodeHydraulicHead tanks
            @ GetLinkPumpIndex # map GetLinkFlows pumps" by blast
  from write_data_Return_writes [OF 2] obtain writes where
    b: "t2 = t1 @ writes" "list_all is_register_write writes" by blast
  from 3 4 have c: "t' = t2 @ [NextHydraulicAnalysisStep, Sleep 1]"
    by (simp add: perform_Return_iff)
  from a b c
  have "t' = t @ GetNodeJunctionIndex # map GetNodePressure junctions
            @ GetNodeTankIndex # map GetNodeHydraulicHead tanks
            @ GetLinkPumpIndex # map GetLinkFlows pumps
            @ writes @ [NextHydraulicAnalysisStep, Sleep 1] \<and>
     list_all is_register_write writes"
    by simp
  then show ?thesis by blast
qed

lemma controls_phase_Return:
  assumes "controls_phase env t = (Return u, t')"
  shows "\<exists>duration step ctl pipes pumps h.
     h = t @ [GetTimeSimulationDuration, GetTimeHydraulicStep,
              SetTimeSimulationDuration (duration + step),
              ReadCoils 0 100, ReadHoldingRegisters 0 100] \<and>
     get_controls env
         (t @ [GetTimeSimulationDuration, GetTimeHydraulicStep,
               SetTimeSimulationDuration (duration + step)]) = (Return ctl, h) \<and>
     ret_indices env h GetLinkPipeIndex = Inr pipes \<and>
     ret_indices env
         (h @ GetLinkPipeIndex # map (\<lambda>(i, s). SetLinkStatus i s) (zip pipes (pipe_statuses ctl)))
         GetLinkPumpIndex = Inr pumps \<and>
     t' = h @ GetLinkPipeIndex # map (\<lambda>(i, s). SetLinkStatus i s) (zip pipes (pipe_statuses ctl))
            @ GetLinkPumpIndex # map (\<lambda>(i, v). SetLinkSettings i v) (zip pumps (pump_settings ctl))"
proof -
  from assms obtain duration t1 step t2 v t3 ctl t4 where
    1: "perform (ret_int env) GetTimeSimulationDuration t = (Return duration, t1)" and
    2: "perform (ret_int env) GetTimeHydraulicStep t1 = (Return step, t2)" and
    3: "perform (ret_none env) (SetTimeSimulationDuration (duration + step)) t2 = (Return v, t3)" and
    4: "get_controls env t3 = (Return ctl, t4)" and
    5: "set_controls env ctl t4 = (Return u, t')"
    unfolding controls_phase_def bind_Return_iff by blast
  from 1 2 3 have a: "t3 = t @ [GetTimeSimulationDuration, GetTimeHydraulicStep,
      SetTimeSimulationDuration (duration + step)]"
    by (simp add: perform_Return_iff)
  from get_controls_Return [OF 4]
  have "t4 = t3 @ [ReadCoils 0 100, ReadHoldingRegisters 0 100]" by blast
  with a have b: "t4 = t @ [GetTimeSimulationDuration, GetTimeHydraulicStep,
      SetTimeSimulationDuration (duration + step), ReadCoils 0 100, ReadHoldingRegisters 0 100]"
    by simp
  from set_controls_Return [OF 5] obtain pipes pumps where
    c: "ret_indices env t4 GetLinkPipeIndex = Inr pipes"
       "ret_indices env
         (t4 @ GetLinkPipeIndex # map (\<lambda>(i, s). SetLinkStatus i s) (zip pipes (pipe_statuses ctl)))
         GetLinkPumpIndex = Inr pumps"
       "t' = t4 @ GetLinkPipeIndex # map (\<lambda>(i, s). SetLinkStatus i s) (zip pipes (pipe_statuses ctl))
            @ GetLinkPumpIndex # map (\<lambda>(i, v). SetLinkSettings i v) (zip pumps (pump_settings ctl))"
    by blast
  from 4 a have d: "get_controls env
         (t @ [GetTimeSimulationDuration, GetTimeHydraulicStep,
               SetTimeSimulationDuration (duration + step)]) = (Return ctl, t4)" by simp
  from b c d show ?thesis by blast
qed

text \<open>
  Claim C3. Whatever way a cycle ends, its events are in order: a control value is
  applied to the engine only before the hydraulic step is invoked, and telemetry is read
  only after it. A cycle that completes has applied the pipe statuses in the order of
  the engine's pipe indices, then the pump settings in the order of its pump indices,
  then invoked the step, and only then read the pressures, heads and flows and written
  them out.
\<close>

theorem cycle_controls_then_step_then_telemetry:
  assumes "cycle env t = (r, t')"
  shows "\<exists>evs. t' = t @ evs \<and> cycle_order False evs \<and>
     (r = Return () \<longrightarrow>
       (\<exists>duration step ctl pipes pumps h junctions tanks flow_pumps writes.
          h = t @ [GetTimeSimulationDuration, GetTimeHydraulicStep,
                   SetTimeSimulationDuration (duration + step),
                   ReadCoils 0 100, ReadHoldingRegisters 0 100] \<and>
          get_controls env
              (t @ [GetTimeSimulationDuration, GetTimeHydraulicStep,
                    SetTimeSimulationDuration (duration + step)]) = (Return ctl, h) \<and>
          ret_indices env h GetLinkPipeIndex = Inr pipes \<and>
          ret_indices env
              (h @ GetLinkPipeIndex # map (\<lambda>(i, s). SetLinkStatus i s) (zip pipes (pipe_statuses ctl)))
              GetLinkPumpIndex = Inr pumps \<and>
          t' = h @ GetLinkPipeIndex # map (\<lambda>(i, s). SetLinkStatus i s) (zip pipes (pipe_statuses ctl))
                 @ GetLinkPumpIndex # map (\<lambda>(i, v). SetLinkSettings i v) (zip pumps (pump_settings ctl))
                 @ RunHydraulicAnalysis
                 # GetNodeJunctionIndex # map GetNodePressure junctions
                 @ GetNodeTankIndex # map GetNodeHydraulicHead tanks
                 @ GetLinkPumpIndex # map GetLinkFlows flow_pumps
                 @ writes @ [NextHydraulicAnalysisStep, Sleep 1] \<and>
          list_all is_register_write writes))"
proof -
  from cycle_ordered [of env t] assms obtain evs where
    evs: "t' = t @ evs" "cycle_order False evs" by auto
  have "\<exists>duration step ctl pipes pumps h junctions tanks flow_pumps writes.
          h = t @ [GetTimeSimulationDuration, GetTimeHydraulicStep,
                   SetTimeSimulationDuration (duration + step),
                   ReadCoils 0 100, ReadHoldingRegisters 0 100] \<and>
          get_controls env
              (t @ [GetTimeSimulationDuration, GetTimeHydraulicStep,
                    SetTimeSimulationDuration (duration + step)]) = (Return ctl, h) \<and>
          ret_indices env h GetLinkPipeIndex = Inr pipes \<and>
          ret_indices env
              (h @ GetLinkPipeIndex # map (\<lambda>(i, s). SetLinkStatus i s) (zip pipes (pipe_statuses ctl)))
              GetLinkPumpIndex = Inr pumps \<and>
          t' = h @ GetLinkPipeIndex # map (\<lambda>(i, s). SetLinkStatus i s) (zip pipes (pipe_statuses ctl))
                 @ GetLinkPumpIndex # map (\<lambda>(i, v). SetLinkSettings i v) (zip pumps (pump_settings ctl))
                 @ RunHydraulicAnalysis
                 # GetNodeJunctionIndex # map GetNodePressure junctions
                 @ GetNodeTankIndex # map GetNodeHydraulicHead tanks
                 @ GetLinkPumpIndex # map GetLinkFlows flow_pumps
                 @ writes @ [NextHydraulicAnalysisStep, Sleep 1] \<and>
          list_all is_register_write writes"
    if completed: "r = Return ()"
  proof -
    from assms completed have "cycle env t = (Return (), t')" by simp
    then obtain v t1 w t2 where
      1: "controls_phase env t = (Return v, t1)" and
      2: "perform (ret_none env) RunHydraulicAnalysis t1 = (Return w, t2)" and
      3: "telemetry_phase env t2 = (Return (), t')"
      unfolding cycle_phases bind_Return_iff by blast
    from controls_phase_Return [OF 1] obtain duration step ctl pipes pumps h where
      a: "h = t @ [GetTimeSimulationDuration, GetTimeHydraulicStep,
                   SetTimeSimulationDuration (duration + step),
                   ReadCoils 0 100, ReadHoldingRegisters 0 100]"
         "get_controls env
              (t @ [GetTimeSimulationDuration, GetTimeHydraulicStep,
                    SetTimeSimulationDuration (duration + step)]) = (Return ctl, h)"
         "ret_indices env h GetLinkPipeIndex = Inr pipes"
         "ret_indices env
              (h @ GetLinkPipeIndex # map (\<lambda>(i, s). SetLinkStatus i s) (zip pipes (pipe_statuses ctl)))
              GetLinkPumpIndex = Inr pumps"
         "t1 = h @ GetLinkPipeIndex # map (\<lambda>(i, s). SetLinkStatus i s) (zip pipes (pipe_statuses ctl))
                 @ GetLinkPumpIndex # map (\<lambda>(i, v). SetLinkSettings i v) (zip pumps (pump_settings ctl))"
      by blast
    from 2 have b: "t2 = t1 @ [RunHydraulicAnalysis]"
      by (simp add: perform_Return_iff)
    from telemetry_phase_Return [OF 3] obtain junctions tanks flow_pumps writes where
      c: "t' = t2 @ GetNodeJunctionIndex # map GetNodePressure junctions
            @ GetNodeTankIndex # map GetNodeHydraulicHead tanks
            @ GetLinkPumpIndex # map GetLinkFlows flow_pumps
            @ writes @ [NextHydraulicAnalysisStep, Sleep 1]"
         "list_all is_register_write writes"
      by blast
    from a(5) b c(1)
    have d: "t' = h @ GetLinkPipeIndex # map (\<lambda>(i, s). SetLinkStatus i s) (zip pipes (pipe_statuses ctl))
                 @ GetLinkPumpIndex # map (\<lambda>(i, v). SetLinkSettings i v) (zip pumps (pump_settings ctl))
                 @ RunHydraulicAnalysis
                 # GetNodeJunctionIndex # map GetNodePressure junctions
                 @ GetNodeTankIndex # map GetNodeHydraulicHead tanks
                 @ GetLinkPumpIndex # map GetLinkFlows flow_pumps
                 @ writes @ [NextHydraulicAnalysisStep, Sleep 1]"
      by simp
    show ?thesis
      by (intro exI conjI) (rule a(1) a(2) a(3) a(4) d c(2))+
  qed
  then have full: "r = Return () \<longrightarrow>
       (\<exists>duration step ctl pipes pumps h junctions tanks flow_pumps writes.
          h = t @ [GetTimeSimulationDuration, GetTimeHydraulicStep,
                   SetTimeSimulationDuration (duration + step),
                   ReadCoils 0 100, ReadHoldingRegisters 0 100] \<and>
          get_controls env
              (t @ [GetTimeSimulationDuration, GetTimeHydraulicStep,
                    SetTimeSimulationDuration (duration + step)]) = (Return ctl, h) \<and>
          ret_indices env h GetLinkPipeIndex = Inr pipes \<and>
          ret_indices env
              (h @ GetLinkPipeIndex # map (\<lambda>(i, s). SetLinkStatus i s) (zip pipes (pipe_statuses ctl)))
              GetLinkPumpIndex = Inr pumps \<and>
          t' = h @ GetLinkPipeIndex # map (\<lambda>(i, s). SetLinkStatus i s) (zip pipes (pipe_statuses ctl))
                 @ GetLinkPumpIndex # map (\<lambda>(i, v). SetLinkSettings i v) (zip pumps (pump_settings ctl))
                 @ RunHydraulicAnalysis
                 # GetNodeJunctionIndex # map GetNodePressure junctions
                 @ GetNodeTankIndex # map GetNodeHydraulicHead tanks
                 @ GetLinkPumpIndex # map GetLinkFlows flow_pumps
                 @ writes @ [NextHydraulicAnalysisStep, Sleep 1] \<and>
          list_all is_register_write writes)"
    by (rule impI)
  show ?thesis
    by (rule exI [of _ evs], intro conjI) (rule evs(1) evs(2) full)+
qed

text \<open>One cycle of the network with two pipes and one pump.\<close>

theorem cycle_controls_then_step_then_telemetry_witness:
  "cycle scenario_a [] =
     (Return (),
      [GetTimeSimulationDuration, GetTimeHydraulicStep, SetTimeSimulationDuration 2,
       ReadCoils 0 100, ReadHoldingRegisters 0 100,
       GetLinkPipeIndex, SetLinkStatus 1 0, SetLinkStatus 2 1,
       GetLinkPumpIndex, SetLinkSettings 3 (3 / 2),
       RunHydraulicAnalysis,
       GetNodeJunctionIndex, GetNodePressure 1, GetNodePressure 2,
       GetNodeTankIndex, GetNodeHydraulicHead 3,
       GetLinkPumpIndex, GetLinkFlows 3,
       WriteRegisters 100 [0, 0], WriteRegisters 102 [0, 0],
       WriteRegisters 200 [0, 0], WriteRegisters 300 [0, 0],
       NextHydraulicAnalysisStep, Sleep 1]) \<and>
   cycle_order False
      [GetTimeSimulationDuration, GetTimeHydraulicStep, SetTimeSimulationDuration 2,
       ReadCoils 0 100, ReadHoldingRegisters 0 100,
       GetLinkPipeIndex, SetLinkStatus 1 0, SetLinkStatus 2 1,
       GetLinkPumpIndex, SetLinkSettings 3 (3 / 2),
       RunHydraulicAnalysis,
       GetNodeJunctionIndex, GetNodePressure 1, GetNodePressure 2,
       GetNodeTankIndex, GetNodeHydraulicHead 3,
       GetLinkPumpIndex, GetLinkFlows 3,
       WriteRegisters 100 [0, 0], WriteRegisters 102 [0, 0],
       WriteRegisters 200 [0, 0], WriteRegisters 300 [0, 0],
       NextHydraulicAnalysisStep, Sleep 1]"
proof -
  let ?evs = "[GetTimeSimulationDuration, GetTimeHydraulicStep, SetTimeSimulationDuration 2,
       ReadCoils 0 100, ReadHoldingRegisters 0 100,
       GetLinkPipeIndex, SetLinkStatus 1 0, SetLinkStatus 2 1,
       GetLinkPumpIndex, SetLinkSettings 3 (3 / 2),
       RunHydraulicAnalysis,
       GetNodeJunctionIndex, GetNodePressure 1, GetNodePressure 2,
       GetNodeTankIndex, GetNodeHydraulicHead 3,
       GetLinkPumpIndex, GetLinkFlows 3,
       WriteRegisters 100 [0, 0], WriteRegisters 102 [0, 0],
       WriteRegisters 200 [0, 0], WriteRegisters 300 [0, 0],
       NextHydraulicAnalysisStep, Sleep 1]"
  from cycle_controls_then_step_then_telemetry [OF cycle_scenario_a]
  obtain evs where e: "?evs = [] @ evs" and ord: "cycle_order False evs"
    by blast
  from e have eq: "evs = ?evs" by simp
  from ord have "cycle_order False ?evs" unfolding eq .
  with cycle_scenario_a show ?thesis by (rule conjI)
qed

subsection \<open>The whole run\<close>

lemmas program_defs =
  main_def try_statement_def try_block_def parse_arguments_def endswith_def
  setup_client_def setup_epanet_def running_def print_overview_def print_count_def
  cycle_def get_controls_def set_controls_def read_data_def write_data_def write_block_def
  finally_block_def except_exit_def bind_def perform_def pure_call_def return_def
  print_def sys_exit_def decode_pipe_status_def decode_pump_setting_values

subsection \<open>What the \<open>try\<close> block can raise\<close>

lemma exits_with_1I: "(\<And>t c. fst (m t) = Raise (SystemExit c) \<Longrightarrow> c = 1) \<Longrightarrow> exits_with_1 m"
  by (simp add: exits_with_1_def)

lemma exits_with_1D: "exits_with_1 m \<Longrightarrow> fst (m t) = Raise (SystemExit c) \<Longrightarrow> c = 1"
  by (simp add: exits_with_1_def)

lemma exits_return: "exits_with_1 (return x)"
  by (simp add: exits_with_1_def return_def)

lemma exits_perform: "exits_with_1 (perform a ev)"
proof (rule exits_with_1I)
  fix t c assume "fst (perform a ev t) = Raise (SystemExit c)"
  then show "c = 1"
    by (cases "a t ev"; cases "projl (a t ev)") (auto simp: perform_def)
qed

lemma exits_pure_call: "exits_with_1 (pure_call r)"
proof (rule exits_with_1I)
  fix t c assume "fst (pure_call r t) = Raise (SystemExit c)"
  then show "c = 1"
    by (cases r; cases "projl r") (auto simp: pure_call_def)
qed

lemma exits_print: "exits_with_1 (print s)"
  by (simp add: exits_with_1_def print_def)

lemma exits_out_of_fuel: "exits_with_1 (\<lambda>t. (OutOfFuel, t))"
  by (simp add: exits_with_1_def)

lemma exits_bind:
  assumes "exits_with_1 m" and "\<And>x. exits_with_1 (f x)"
  shows "exits_with_1 (bind m f)"
proof (rule exits_with_1I)
  fix t c assume *: "fst (bind m f t) = Raise (SystemExit c)"
  obtain r t1 where mt: "m t = (r, t1)" by (cases "m t")
  show "c = 1"
  proof (cases r)
    case (Return x)
    with * mt have "fst (f x t1) = Raise (SystemExit c)" by (simp add: bind_def)
    with assms(2) show ?thesis by (rule exits_with_1D)
  next
    case (Raise e)
    with * mt have "fst (m t) = Raise (SystemExit c)" by (simp add: bind_def)
    with assms(1) show ?thesis by (rule exits_with_1D)
  next
    case OutOfFuel
    with * mt show ?thesis by (simp add: bind_def)
  qed
qed

lemma exits_except_exit:
  assumes "exits_with_1 m"
  shows "exits_with_1 (except_exit msg m)"
proof (rule exits_with_1I)
  fix t c assume *: "fst (except_exit msg m t) = Raise (SystemExit c)"
  obtain r t1 where mt: "m t = (r, t1)" by (cases "m t")
  show "c = 1"
  proof (cases "\<exists>s. r = Raise (Exception s)")
    case True
    with * mt show ?thesis
      by (auto simp: except_exit_def bind_def print_def sys_exit_def)
  next
    case False
    with mt have "except_exit msg m t = (r, t1)"
      by (auto simp: except_exit_def split: outcome.splits exc.splits)
    with * mt have "fst (m t) = Raise (SystemExit c)" by simp
    with assms show ?thesis by (rule exits_with_1D)
  qed
qed

lemma exits_case_prod: "(\<And>a b. exits_with_1 (f a b)) \<Longrightarrow> exits_with_1 (case_prod f x)"
  by (cases x) simp

lemma exits_if: "exits_with_1 a \<Longrightarrow> exits_with_1 b \<Longrightarrow> exits_with_1 (if c then a else b)"
  by simp

lemma exits_for_each: "(\<And>x. exits_with_1 (body x)) \<Longrightarrow> exits_with_1 (for_each body xs)"
  by (induction xs) (simp_all add: exits_return exits_bind)

lemma exits_collect: "(\<And>x. exits_with_1 (f x)) \<Longrightarrow> exits_with_1 (collect f xs)"
  by (induction xs) (simp_all add: exits_return exits_bind)

lemma exits_print_count: "exits_with_1 (print_count env label getter)"
proof -
  have "exits_with_1 (\<lambda>t. (Return (), t @ [PrintCount label n]))" for n
    by (simp add: exits_with_1_def)
  then show ?thesis
    unfolding print_count_def by (intro exits_bind exits_perform)
qed

lemmas exits_intros =
  exits_bind exits_except_exit exits_for_each exits_collect exits_case_prod exits_if
  exits_perform exits_print exits_return exits_pure_call exits_out_of_fuel exits_print_count

lemma exits_connect_loop: "exits_with_1 (connect_loop n env)"
proof (induction n)
  case 0
  show ?case by (simp add: exits_out_of_fuel)
next
  case (Suc n)
  then show ?case unfolding connect_loop.simps by (intro exits_intros)
qed

lemma exits_setup_client: "exits_with_1 (setup_client fuel env)"
  unfolding setup_client_def by (intro exits_intros exits_connect_loop)

lemma exits_setup_epanet: "exits_with_1 (setup_epanet env network_file)"
  unfolding setup_epanet_def by (intro exits_intros)

lemma exits_cycle: "exits_with_1 (cycle env)"
  unfolding cycle_def get_controls_def set_controls_def read_data_def write_data_def
    write_block_def
  by (intro exits_intros)

lemma exits_main_loop: "exits_with_1 (main_loop n env)"
proof (induction n)
  case 0
  show ?case by (simp add: exits_out_of_fuel)
next
  case (Suc n)
  then show ?case unfolding main_loop.simps by (intro exits_intros exits_cycle)
qed

lemma exits_running: "exits_with_1 (running fuel env)"
  unfolding running_def print_overview_def by (intro exits_intros exits_main_loop)

subsection \<open>The loop never returns\<close>

lemma bind_no_Return:
  assumes "\<And>x t. fst (f x t) \<noteq> Return y"
  shows "fst (bind m f t) \<noteq> Return y"
proof -
  obtain r t1 where "m t = (r, t1)" by (cases "m t")
  then show ?thesis using assms by (cases r) (simp_all add: bind_def)
qed

lemma main_loop_no_Return: "fst (main_loop n env t) \<noteq> Return y"
proof (induction n arbitrary: t)
  case 0
  show ?case by simp
next
  case (Suc n)
  show ?case unfolding main_loop.simps by (rule bind_no_Return) (rule Suc)
qed

lemma running_no_Return: "fst (running fuel env t) \<noteq> Return y"
  unfolding running_def
  by (intro bind_no_Return main_loop_no_Return)

subsection \<open>The \<open>try\<close> block makes no draining call\<close>

lemma emits_print_count: "P getter \<Longrightarrow> (\<And>n. P (PrintCount label n)) \<Longrightarrow> emits P (print_count env label getter)"
proof -
  assume g: "P getter" and p: "\<And>n. P (PrintCount label n)"
  have "emits P (\<lambda>t. (Return (), t @ [PrintCount label n]))" for n
    by (simp add: emits_def p)
  with g show ?thesis
    unfolding print_count_def by (intro emits_bind emits_perform)
qed

lemma emits_cycle_no_draining: "emits (\<lambda>e. \<not> is_draining_call e) (cycle env)"
  unfolding cycle_def get_controls_def set_controls_def read_data_def write_data_def
    write_block_def
  by (intro emits_intros) simp_all

lemma emits_main_loop_no_draining: "emits (\<lambda>e. \<not> is_draining_call e) (main_loop n env)"
proof (induction n)
  case 0
  show ?case by (simp add: emits_out_of_fuel)
next
  case (Suc n)
  then show ?case unfolding main_loop.simps by (intro emits_bind emits_cycle_no_draining)
qed

lemma emits_running_no_draining: "emits (\<lambda>e. \<not> is_draining_call e) (running fuel env)"
  unfolding running_def print_overview_def
  by (intro emits_intros emits_print_count emits_main_loop_no_draining) simp_all

lemma emits_setup_client_no_draining: "emits (\<lambda>e. \<not> is_draining_call e) (setup_client fuel env)"
  unfolding setup_client_def
  by (intro emits_intros emits_connect_loop) simp_all

lemma emits_setup_epanet_no_draining: "emits (\<lambda>e. \<not> is_draining_call e) (setup_epanet env nf)"
  unfolding setup_epanet_def
  by (intro emits_intros) simp_all

lemma try_block_outcome:
  assumes "try_block fuel env network_file t = ((b, client_bound, en_bound), t1)"
  shows "b \<noteq> Return () \<and> (\<forall>c. b = Raise (SystemExit c) \<longrightarrow> c = 1) \<and>
         (\<exists>evs. t1 = t @ evs \<and> list_all (\<lambda>e. \<not> is_draining_call e) evs)"
proof -
  obtain r1 h1 where 1: "setup_client fuel env t = (r1, h1)"
    by (cases "setup_client fuel env t")
  from emitsD [OF emits_setup_client_no_draining, of fuel env t] 1
  obtain e1 where e1: "h1 = t @ e1" "list_all (\<lambda>e. \<not> is_draining_call e) e1" by auto
  have x1: "c = 1" if "r1 = Raise (SystemExit c)" for c
    using exits_with_1D [OF exits_setup_client, of fuel env t c] 1 that by simp
  show ?thesis
  proof (cases "\<exists>u. r1 = Return u")
    case False
    with assms 1 have "b = r1" "t1 = h1"
      by (auto simp: try_block_def split: outcome.splits)
    with False e1 x1 show ?thesis by auto
  next
    case True
    obtain r2 h2 where 2: "setup_epanet env network_file h1 = (r2, h2)"
      by (cases "setup_epanet env network_file h1")
    from emitsD [OF emits_setup_epanet_no_draining, of env network_file h1] 2
    obtain e2 where e2: "h2 = h1 @ e2" "list_all (\<lambda>e. \<not> is_draining_call e) e2" by auto
    have x2: "c = 1" if "r2 = Raise (SystemExit c)" for c
      using exits_with_1D [OF exits_setup_epanet, of env network_file h1 c] 2 that by simp
    show ?thesis
    proof (cases "\<exists>u. r2 = Return u")
      case False
      with assms 1 2 True have "b = r2" "t1 = h2"
        by (auto simp: try_block_def split: outcome.splits)
      with False e1 e2 x2 show ?thesis by auto
    next
      case r2: True
      obtain r3 h3 where 3: "running fuel env h2 = (r3, h3)"
        by (cases "running fuel env h2")
      from emitsD [OF emits_running_no_draining, of fuel env h2] 3
      obtain e3 where e3: "h3 = h2 @ e3" "list_all (\<lambda>e. \<not> is_draining_call e) e3" by auto
      have x3: "c = 1" if "r3 = Raise (SystemExit c)" for c
        using exits_with_1D [OF exits_running, of fuel env h2 c] 3 that by simp
      have n3: "r3 \<noteq> Return ()"
        using running_no_Return [of fuel env h2 "()"] 3 by simp
      from assms 1 2 3 True r2 have "b = r3" "t1 = h3"
        by (auto simp: try_block_def split: outcome.splits)
      with n3 e1 e2 e3 x3 show ?thesis by auto
    qed
  qed
qed

lemma parse_arguments_outcome:
  assumes "parse_arguments argv t = (r, t0)"
  shows "(\<exists>network_file. r = Return network_file) \<or> r = Raise (SystemExit 1) \<or>
         (\<exists>e. r = Raise (Exception e))"
  using assms
  by (auto simp: parse_arguments_def bind_def print_def sys_exit_def return_def
      split: if_splits list.splits)

lemma for_each_perform_cases:
  assumes "for_each (perform a) calls t = (rf, t')"
  shows "(rf = Return () \<and> t' = t @ calls) \<or>
         (\<exists>f n. n < length calls \<and> a (t @ take n calls) (calls ! n) = Inl f \<and>
            rf = Raise (raise_fault f) \<and> t' = t @ take (Suc n) calls)"
  using assms
proof (induction calls arbitrary: t)
  case Nil
  then show ?case by (simp add: return_def)
next
  case (Cons c cs)
  show ?case
  proof (cases "a t c")
    case (Inl f)
    then have "perform a c t = (Raise (raise_fault f), t @ [c])"
      by (simp add: perform_def)
    with Cons.prems have "rf = Raise (raise_fault f)" "t' = t @ [c]"
      by (simp_all add: bind_def)
    with Inl have "0 < length (c # cs) \<and> a (t @ take 0 (c # cs)) ((c # cs) ! 0) = Inl f \<and>
        rf = Raise (raise_fault f) \<and> t' = t @ take (Suc 0) (c # cs)" by simp
    then show ?thesis by blast
  next
    case (Inr u)
    then have "perform a c t = (Return u, t @ [c])"
      by (simp add: perform_def)
    with Cons.prems have "for_each (perform a) cs (t @ [c]) = (rf, t')"
      by (simp add: bind_def)
    from Cons.IH [OF this] show ?thesis
    proof
      assume "rf = Return () \<and> t' = (t @ [c]) @ cs"
      then show ?thesis by simp
    next
      assume "\<exists>f n. n < length cs \<and> a ((t @ [c]) @ take n cs) (cs ! n) = Inl f \<and>
            rf = Raise (raise_fault f) \<and> t' = (t @ [c]) @ take (Suc n) cs"
      then obtain f n where "n < length cs" "a ((t @ [c]) @ take n cs) (cs ! n) = Inl f"
        "rf = Raise (raise_fault f)" "t' = (t @ [c]) @ take (Suc n) cs" by blast
      then have "Suc n < length (c # cs) \<and>
          a (t @ take (Suc n) (c # cs)) ((c # cs) ! Suc n) = Inl f \<and>
          rf = Raise (raise_fault f) \<and> t' = t @ take (Suc (Suc n)) (c # cs)" by simp
      then show ?thesis by blast
    qed
  qed
qed

lemma bind_return_unit: "bind (return ()) f = f ()"
  by (rule ext) (simp add: bind_def return_def)

lemma bind_unit_return: "bind m (\<lambda>_. return ()) = (m :: unit prog)"
  by (rule ext) (auto simp: bind_def return_def split: prod.splits outcome.splits)

lemma bind_return: "bind m return = m"
  by (rule ext) (auto simp: bind_def return_def split: prod.splits outcome.splits)

lemma finally_block_draining_calls:
  "finally_block env client_bound en_bound =
     for_each (perform (ret_none env)) (draining_calls client_bound en_bound)"
  by (simp add: finally_block_def draining_calls_def bind_return_unit bind_unit_return bind_return)

lemma finally_block_cases:
  assumes "finally_block env client_bound en_bound t = (rf, t')"
  shows "(rf = Return () \<and> t' = t @ draining_calls client_bound en_bound) \<or>
         (\<exists>f n. n < length (draining_calls client_bound en_bound) \<and>
            ret_none env (t @ take n (draining_calls client_bound en_bound))
              (draining_calls client_bound en_bound ! n) = Inl f \<and>
            rf = Raise (raise_fault f) \<and>
            t' = t @ take (Suc n) (draining_calls client_bound en_bound))"
  using assms unfolding finally_block_draining_calls by (rule for_each_perform_cases)

lemma main_after_try_block:
  assumes "parse_arguments argv t = (Return network_file, t0)"
    and "try_block fuel env network_file t0 = ((b, client_bound, en_bound), t1)"
    and "b \<noteq> OutOfFuel"
    and "handlers b t1 = (r1, t2)"
    and "finally_block env client_bound en_bound t2 = (rf, t3)"
  shows "main fuel argv env t = ((if rf = Return () then r1 else rf), t3)"
proof -
  obtain e where b: "b = Return () \<or> b = Raise e"
    using assms(3) by (cases b) auto
  have "try_statement fuel env network_file t0 = ((if rf = Return () then r1 else rf), t3)"
    using b
  proof
    assume bR: "b = Return ()"
    from assms(4) have r1: "r1 = Return ()" and t2: "t1 = t2"
      by (simp_all add: bR)
    from assms(2) have tb: "try_block fuel env network_file t0 =
        ((Return (), client_bound, en_bound), t2)"
      by (simp add: bR t2)
    from assms(5) show ?thesis
      by (cases rf) (simp_all add: try_statement_def tb r1)
  next
    assume "b = Raise e"
    with assms(2,4,5) show ?thesis
      by (cases rf) (simp_all add: try_statement_def)
  qed
  with assms(1) show ?thesis
    by (simp add: main_def bind_def)
qed

subsection \<open>Draining\<close>

lemma parse_arguments_ok:
  "parse_arguments [''epanet.py'', ''network.inp''] t = (Return ''network.inp'', t)"
  by (simp add: parse_arguments_def endswith_def return_def)

lemma handlers_interrupt:
  "handlers (Raise KeyboardInterrupt) t =
     (Raise (SystemExit 0), t @ [Print ''>--- Program interrupted by user ---''])"
  by (simp add: bind_def print_def sys_exit_def)

lemma try_block_interrupted:
  "try_block 1 interrupted ''network.inp'' [] =
     ((Raise KeyboardInterrupt, True, True), first_cycle_trace)"
  by (simp add: program_defs interrupted_def scenario_a_def first_cycle_trace_def
      enumerate_eq_zip upt_rec)

lemma try_block_interrupted_close_fails:
  "try_block 1 interrupted_close_fails ''network.inp'' [] =
     ((Raise KeyboardInterrupt, True, True), first_cycle_trace)"
  by (simp add: program_defs interrupted_close_fails_def scenario_a_def first_cycle_trace_def
      enumerate_eq_zip upt_rec)

lemma try_block_interrupted_teardown_fails:
  "try_block 1 interrupted_teardown_fails ''network.inp'' [] =
     ((Raise KeyboardInterrupt, True, True), first_cycle_trace)"
  by (simp add: program_defs interrupted_teardown_fails_def scenario_a_def
      first_cycle_trace_def enumerate_eq_zip upt_rec)

lemma exit_status_fault: "exit_status (Raise (raise_fault f)) \<noteq> Some 0"
  by (cases f) simp_all

lemma count_no_draining:
  "list_all (\<lambda>e. \<not> is_draining_call e) evs \<Longrightarrow>
     count_list evs Close = 0 \<and> count_list evs CloseHydraulicAnalysis = 0 \<and>
     count_list evs Unload = 0"
  by (induction evs) auto

lemma for_each_perform_all_succeed:
  assumes "\<forall>k<length calls. a (t @ take k calls) (calls ! k) = Inr ()"
  shows "for_each (perform a) calls t = (Return (), t @ calls)"
  using assms
proof (induction calls arbitrary: t)
  case Nil
  show ?case by (simp add: return_def)
next
  case (Cons c cs)
  from Cons.prems have first: "a t c = Inr ()"
    by (auto dest: spec [of _ 0])
  then have 1: "perform a c t = (Return (), t @ [c])"
    by (simp add: perform_def)
  have rest: "\<forall>k<length cs. a ((t @ [c]) @ take k cs) (cs ! k) = Inr ()"
  proof (intro allI impI)
    fix k assume "k < length cs"
    then have "Suc k < length (c # cs)" by simp
    with Cons.prems have "a (t @ take (Suc k) (c # cs)) ((c # cs) ! Suc k) = Inr ()"
      by blast
    then show "a ((t @ [c]) @ take k cs) (cs ! k) = Inr ()" by simp
  qed
  from Cons.IH [OF rest] 1 show ?case by (simp add: bind_def)
qed

lemma for_each_perform_first_failure:
  assumes "n < length calls"
    and "\<forall>k<n. a (t @ take k calls) (calls ! k) = Inr ()"
    and "a (t @ take n calls) (calls ! n) = Inl f"
  shows "for_each (perform a) calls t = (Raise (raise_fault f), t @ take (Suc n) calls)"
  using assms
proof (induction calls arbitrary: t n)
  case Nil
  then show ?case by simp
next
  case (Cons c cs)
  show ?case
  proof (cases n)
    case 0
    with Cons.prems(3) have "a t c = Inl f" by simp
    then have "perform a c t = (Raise (raise_fault f), t @ [c])"
      by (simp add: perform_def)
    with 0 show ?thesis by (simp add: bind_def)
  next
    case (Suc j)
    from Cons.prems(2) Suc have first: "a t c = Inr ()"
      by (auto dest: spec [of _ 0])
    then have 1: "perform a c t = (Return (), t @ [c])"
      by (simp add: perform_def)
    from Cons.prems(1) Suc have j: "j < length cs" by simp
    have earlier: "\<forall>k<j. a ((t @ [c]) @ take k cs) (cs ! k) = Inr ()"
    proof (intro allI impI)
      fix k assume "k < j"
      then have "Suc k < n" using Suc by simp
      with Cons.prems(2) have "a (t @ take (Suc k) (c # cs)) ((c # cs) ! Suc k) = Inr ()"
        by blast
      then show "a ((t @ [c]) @ take k cs) (cs ! k) = Inr ()" by simp
    qed
    from Cons.prems(3) Suc have fails: "a ((t @ [c]) @ take j cs) (cs ! j) = Inl f"
      by simp
    from Cons.IH [OF j earlier fails] 1 Suc show ?thesis
      by (simp add: bind_def)
  qed
qed

text \<open>
  Claim C9, amended. Whatever ended the \<open>try\<close> block, the \<open>finally\<close> block runs after
  the handlers and makes its calls in order: \<open>close\<close> if the client is bound, then
  \<open>closeHydraulicAnalysis\<close> and \<open>unload\<close> if the engine is bound. When every one of
  these calls returns, the run ends as the handlers left it, after all of them. When the
  calls before the \<open>n\<close>-th return and the \<open>n\<close>-th raises, the run ends with that
  exception right after that call: nothing in the block catches it, and the calls after
  it are not made.
\<close>

theorem draining_stops_at_first_failure:
  assumes "parse_arguments argv t = (Return network_file, t0)"
    and "try_block fuel env network_file t0 = ((b, client_bound, en_bound), t1)"
    and "b \<noteq> OutOfFuel"
    and "handlers b t1 = (r1, t2)"
  shows "((\<forall>k<length (draining_calls client_bound en_bound).
            ret_none env (t2 @ take k (draining_calls client_bound en_bound))
              (draining_calls client_bound en_bound ! k) = Inr ()) \<longrightarrow>
          main fuel argv env t = (r1, t2 @ draining_calls client_bound en_bound)) \<and>
         (\<forall>n f. n < length (draining_calls client_bound en_bound) \<and>
            (\<forall>k<n. ret_none env (t2 @ take k (draining_calls client_bound en_bound))
               (draining_calls client_bound en_bound ! k) = Inr ()) \<and>
            ret_none env (t2 @ take n (draining_calls client_bound en_bound))
              (draining_calls client_bound en_bound ! n) = Inl f \<longrightarrow>
            main fuel argv env t =
              (Raise (raise_fault f),
               t2 @ take (Suc n) (draining_calls client_bound en_bound)))"
proof (intro conjI allI impI)
  assume "\<forall>k<length (draining_calls client_bound en_bound).
      ret_none env (t2 @ take k (draining_calls client_bound en_bound))
        (draining_calls client_bound en_bound ! k) = Inr ()"
  then have fin: "finally_block env client_bound en_bound t2 =
      (Return (), t2 @ draining_calls client_bound en_bound)"
    unfolding finally_block_draining_calls by (rule for_each_perform_all_succeed)
  from main_after_try_block [OF assms fin]
  show "main fuel argv env t = (r1, t2 @ draining_calls client_bound en_bound)" by simp
next
  fix n f
  assume *: "n < length (draining_calls client_bound en_bound) \<and>
      (\<forall>k<n. ret_none env (t2 @ take k (draining_calls client_bound en_bound))
         (draining_calls client_bound en_bound ! k) = Inr ()) \<and>
      ret_none env (t2 @ take n (draining_calls client_bound en_bound))
        (draining_calls client_bound en_bound ! n) = Inl f"
  then have fin: "finally_block env client_bound en_bound t2 =
      (Raise (raise_fault f), t2 @ take (Suc n) (draining_calls client_bound en_bound))"
    unfolding finally_block_draining_calls
    by (intro for_each_perform_first_failure) simp_all
  from main_after_try_block [OF assms fin]
  show "main fuel argv env t =
      (Raise (raise_fault f), t2 @ take (Suc n) (draining_calls client_bound en_bound))"
    by simp
qed

text \<open>
  An interrupt in the sleep of the first cycle: once with a clean shutdown, once with
  \<open>closeHydraulicAnalysis\<close> raising after \<open>close\<close> has returned.
\<close>

theorem draining_stops_at_first_failure_witness:
  "main 1 [''epanet.py'', ''network.inp''] interrupted [] =
     (Raise (SystemExit 0),
      first_cycle_trace @
      [Print ''>--- Program interrupted by user ---'', Close, CloseHydraulicAnalysis, Unload]) \<and>
   main 1 [''epanet.py'', ''network.inp''] interrupted_teardown_fails [] =
     (Raise (Exception ''engine error''),
      first_cycle_trace @
      [Print ''>--- Program interrupted by user ---'', Close, CloseHydraulicAnalysis])"
proof -
  have ne: "Raise KeyboardInterrupt \<noteq> (OutOfFuel :: unit outcome)" by simp
  have dc: "draining_calls True True = [Close, CloseHydraulicAnalysis, Unload]"
    by (simp add: draining_calls_def)
  note clean = draining_stops_at_first_failure
    [OF parse_arguments_ok try_block_interrupted ne handlers_interrupt, THEN conjunct1]
  have all_ok: "\<forall>k<length (draining_calls True True).
      ret_none interrupted
        ((first_cycle_trace @ [Print ''>--- Program interrupted by user ---'']) @
         take k (draining_calls True True))
        (draining_calls True True ! k) = Inr ()"
    by (simp add: dc interrupted_def scenario_a_def less_Suc_eq nth_Cons' numeral_3_eq_3)
  from clean all_ok
  have 1: "main 1 [''epanet.py'', ''network.inp''] interrupted [] =
     (Raise (SystemExit 0),
      (first_cycle_trace @ [Print ''>--- Program interrupted by user ---'']) @
      draining_calls True True)"
    by blast
  note failing = draining_stops_at_first_failure
    [OF parse_arguments_ok try_block_interrupted_teardown_fails ne handlers_interrupt,
     THEN conjunct2, THEN spec, THEN spec, of 1 "Error ''engine error''"]
  have fails: "1 < length (draining_calls True True) \<and>
      (\<forall>k<1. ret_none interrupted_teardown_fails
         ((first_cycle_trace @ [Print ''>--- Program interrupted by user ---'']) @
          take k (draining_calls True True))
         (draining_calls True True ! k) = Inr ()) \<and>
      ret_none interrupted_teardown_fails
        ((first_cycle_trace @ [Print ''>--- Program interrupted by user ---'']) @
         take 1 (draining_calls True True))
        (draining_calls True True ! 1) = Inl (Error ''engine error'')"
    by (simp add: dc interrupted_teardown_fails_def scenario_a_def first_cycle_trace_def)
  from failing fails
  have 2: "main 1 [''epanet.py'', ''network.inp''] interrupted_teardown_fails [] =
     (Raise (raise_fault (Error ''engine error'')),
      (first_cycle_trace @ [Print ''>--- Program interrupted by user ---'']) @
      take (Suc 1) (draining_calls True True))"
    by blast
  from 1 2 show ?thesis by (simp add: dc)
qed

text \<open>
  Claim C9 says that an error raised while draining is reported but not re-raised, that
  the remaining draining actions still run and that the exit status is unchanged. After
  an interrupt, which alone ends the run with status 0, an error raised by
  \<open>closeHydraulicAnalysis\<close> ends the run with that error and status 1, and \<open>unload\<close>
  is never called.
\<close>

theorem draining_error_is_raised_counterexample:
  "try_block 1 interrupted_teardown_fails ''network.inp'' [] =
     ((Raise KeyboardInterrupt, True, True), first_cycle_trace) \<and>
   main 1 [''epanet.py'', ''network.inp''] interrupted_teardown_fails [] =
     (Raise (Exception ''engine error''),
      first_cycle_trace @
      [Print ''>--- Program interrupted by user ---'', Close, CloseHydraulicAnalysis]) \<and>
   exit_status (Raise (Exception ''engine error'')) = Some 1 \<and>
   Unload \<notin> set (first_cycle_trace @
      [Print ''>--- Program interrupted by user ---'', Close, CloseHydraulicAnalysis])"
proof -
  have fin: "finally_block interrupted_teardown_fails True True
      (first_cycle_trace @ [Print ''>--- Program interrupted by user ---'']) =
    (Raise (Exception ''engine error''),
     first_cycle_trace @
     [Print ''>--- Program interrupted by user ---'', Close, CloseHydraulicAnalysis])"
    by (simp add: finally_block_def bind_def perform_def interrupted_teardown_fails_def
        scenario_a_def)
  have ne: "Raise KeyboardInterrupt \<noteq> (OutOfFuel :: unit outcome)" by simp
  from main_after_try_block
    [OF parse_arguments_ok try_block_interrupted_teardown_fails ne handlers_interrupt fin]
  have "main 1 [''epanet.py'', ''network.inp''] interrupted_teardown_fails [] =
     (Raise (Exception ''engine error''),
      first_cycle_trace @
      [Print ''>--- Program interrupted by user ---'', Close, CloseHydraulicAnalysis])"
    by simp
  moreover have "Unload \<notin> set (first_cycle_trace @
      [Print ''>--- Program interrupted by user ---'', Close, CloseHydraulicAnalysis])"
    by (simp add: first_cycle_trace_def)
  ultimately show ?thesis
    using try_block_interrupted_teardown_fails by simp
qed

subsection \<open>The exit status\<close>

lemma main_parse_failure:
  assumes "parse_arguments argv t = (Raise e, t0)"
  shows "main fuel argv env t = (Raise e, t0)"
  using assms by (simp add: main_def bind_def)

lemma main_out_of_fuel:
  assumes "parse_arguments argv t = (Return network_file, t0)"
    and "try_block fuel env network_file t0 = ((OutOfFuel, client_bound, en_bound), t1)"
  shows "main fuel argv env t = (OutOfFuel, t1)"
  using assms by (simp add: main_def bind_def try_statement_def)

lemma exit_status_zero_only_if:
  assumes zero: "exit_status (fst (main fuel argv env t)) = Some 0"
  shows "\<exists>network_file t0 client_bound en_bound t1 t3.
           parse_arguments argv t = (Return network_file, t0) \<and>
           try_block fuel env network_file t0 =
             ((Raise KeyboardInterrupt, client_bound, en_bound), t1) \<and>
           finally_block env client_bound en_bound
             (t1 @ [Print ''>--- Program interrupted by user ---'']) = (Return (), t3)"
proof -
  obtain r0 t0 where parse: "parse_arguments argv t = (r0, t0)"
    by (cases "parse_arguments argv t")
  from parse_arguments_outcome [OF parse] zero parse
  obtain network_file where r0: "r0 = Return network_file"
    by (auto simp: main_parse_failure)
  obtain b client_bound en_bound t1 where
    tb: "try_block fuel env network_file t0 = ((b, client_bound, en_bound), t1)"
    by (cases "try_block fuel env network_file t0") auto
  from parse r0 have parse': "parse_arguments argv t = (Return network_file, t0)" by simp
  have fuel: "b \<noteq> OutOfFuel"
    using zero main_out_of_fuel [OF parse'] tb by auto
  obtain r1 t2 where h: "handlers b t1 = (r1, t2)"
    by (cases "handlers b t1")
  obtain rf t3 where fin: "finally_block env client_bound en_bound t2 = (rf, t3)"
    by (cases "finally_block env client_bound en_bound t2")
  note run = main_after_try_block [OF parse' tb fuel h fin]
  have rf: "rf = Return ()"
  proof (rule ccontr)
    assume "rf \<noteq> Return ()"
    with finally_block_cases [OF fin] obtain f where "rf = Raise (raise_fault f)" by blast
    with run zero exit_status_fault [of f] show False by simp
  qed
  with run zero have r1: "exit_status r1 = Some 0" by simp
  from try_block_outcome [OF tb] have nr: "b \<noteq> Return ()"
    and ex: "\<And>c. b = Raise (SystemExit c) \<Longrightarrow> c = 1" by blast+
  have "b = Raise KeyboardInterrupt"
  proof (cases b)
    case (Return u)
    with nr show ?thesis by simp
  next
    case (Raise e)
    show ?thesis
    proof (cases e)
      case (Exception s)
      with Raise h r1 show ?thesis by (auto simp: bind_def print_def sys_exit_def)
    next
      case KeyboardInterrupt
      with Raise show ?thesis by simp
    next
      case (SystemExit c)
      with Raise ex have "c = 1" by simp
      with Raise SystemExit h r1 show ?thesis by auto
    qed
  next
    case OutOfFuel
    with fuel show ?thesis by simp
  qed
  with h have "t2 = t1 @ [Print ''>--- Program interrupted by user ---'']"
    by (simp add: bind_def print_def sys_exit_def)
  with parse' tb fin rf \<open>b = Raise KeyboardInterrupt\<close> show ?thesis by blast
qed

lemma exit_status_zero_if:
  assumes "parse_arguments argv t = (Return network_file, t0)"
    and "try_block fuel env network_file t0 =
           ((Raise KeyboardInterrupt, client_bound, en_bound), t1)"
    and "finally_block env client_bound en_bound
           (t1 @ [Print ''>--- Program interrupted by user ---'']) = (Return (), t3)"
  shows "main fuel argv env t = (Raise (SystemExit 0), t3)"
proof -
  have ne: "Raise KeyboardInterrupt \<noteq> (OutOfFuel :: unit outcome)" by simp
  from main_after_try_block [OF assms(1,2) ne handlers_interrupt assms(3)]
  show ?thesis by simp
qed

text \<open>
  Claim C8, amended. The exit status is 0 exactly when the \<open>try\<close> block is ended by a
  \<open>KeyboardInterrupt\<close>, for which the stopped-by-user line is printed, and no call of
  the \<open>finally\<close> block raises; every other run that ends has a status, which is then
  not 0. When the interrupt comes with the client and the engine set up, as it does
  between cycles, and no draining call raises, the run makes exactly one call each of
  \<open>close\<close>, \<open>closeHydraulicAnalysis\<close> and \<open>unload\<close> before it exits with status 0.
\<close>

theorem exit_status_zero_iff_interrupt_and_clean_draining:
  "(exit_status (fst (main fuel argv env t)) = Some 0 \<longleftrightarrow>
      (\<exists>network_file t0 client_bound en_bound t1 t3.
         parse_arguments argv t = (Return network_file, t0) \<and>
         try_block fuel env network_file t0 =
           ((Raise KeyboardInterrupt, client_bound, en_bound), t1) \<and>
         finally_block env client_bound en_bound
           (t1 @ [Print ''>--- Program interrupted by user ---'']) = (Return (), t3))) \<and>
   (fst (main fuel argv env t) = OutOfFuel \<or>
      (\<exists>c. exit_status (fst (main fuel argv env t)) = Some c)) \<and>
   (parse_arguments argv t = (Return nf, h0) \<and>
    try_block fuel env nf h0 = ((Raise KeyboardInterrupt, True, True), h1) \<and>
    finally_block env True True
      (h1 @ [Print ''>--- Program interrupted by user ---'']) = (Return (), h3) \<longrightarrow>
    fst (main fuel argv env t) = Raise (SystemExit 0) \<and>
    Print ''>--- Program interrupted by user ---'' \<in> set (snd (main fuel argv env t)) \<and>
    count_list (snd (main fuel argv env t)) Close = count_list t Close + 1 \<and>
    count_list (snd (main fuel argv env t)) CloseHydraulicAnalysis =
      count_list t CloseHydraulicAnalysis + 1 \<and>
    count_list (snd (main fuel argv env t)) Unload = count_list t Unload + 1)"
proof (intro conjI impI)
  show "exit_status (fst (main fuel argv env t)) = Some 0 \<longleftrightarrow>
      (\<exists>network_file t0 client_bound en_bound t1 t3.
         parse_arguments argv t = (Return network_file, t0) \<and>
         try_block fuel env network_file t0 =
           ((Raise KeyboardInterrupt, client_bound, en_bound), t1) \<and>
         finally_block env client_bound en_bound
           (t1 @ [Print ''>--- Program interrupted by user ---'']) = (Return (), t3))"
  proof
    assume "exit_status (fst (main fuel argv env t)) = Some 0"
    then show "\<exists>network_file t0 client_bound en_bound t1 t3.
         parse_arguments argv t = (Return network_file, t0) \<and>
         try_block fuel env network_file t0 =
           ((Raise KeyboardInterrupt, client_bound, en_bound), t1) \<and>
         finally_block env client_bound en_bound
           (t1 @ [Print ''>--- Program interrupted by user ---'']) = (Return (), t3)"
      by (rule exit_status_zero_only_if)
  next
    assume "\<exists>network_file t0 client_bound en_bound t1 t3.
         parse_arguments argv t = (Return network_file, t0) \<and>
         try_block fuel env network_file t0 =
           ((Raise KeyboardInterrupt, client_bound, en_bound), t1) \<and>
         finally_block env client_bound en_bound
           (t1 @ [Print ''>--- Program interrupted by user ---'']) = (Return (), t3)"
    then obtain network_file t0 client_bound en_bound t1 t3 where
      "parse_arguments argv t = (Return network_file, t0)"
      "try_block fuel env network_file t0 =
           ((Raise KeyboardInterrupt, client_bound, en_bound), t1)"
      "finally_block env client_bound en_bound
           (t1 @ [Print ''>--- Program interrupted by user ---'']) = (Return (), t3)"
      by blast
    from exit_status_zero_if [OF this] show "exit_status (fst (main fuel argv env t)) = Some 0"
      by simp
  qed
next
  show "fst (main fuel argv env t) = OutOfFuel \<or>
      (\<exists>c. exit_status (fst (main fuel argv env t)) = Some c)"
    by (cases "fst (main fuel argv env t)" rule: exit_status.cases) simp_all
next
  assume a: "parse_arguments argv t = (Return nf, h0) \<and>
    try_block fuel env nf h0 = ((Raise KeyboardInterrupt, True, True), h1) \<and>
    finally_block env True True
      (h1 @ [Print ''>--- Program interrupted by user ---'']) = (Return (), h3)"
  then have parse: "parse_arguments argv t = (Return nf, h0)"
    and tb: "try_block fuel env nf h0 = ((Raise KeyboardInterrupt, True, True), h1)"
    and fin: "finally_block env True True
      (h1 @ [Print ''>--- Program interrupted by user ---'']) = (Return (), h3)"
    by simp_all
  from parse have h0: "h0 = t"
    by (auto simp: parse_arguments_def bind_def print_def sys_exit_def return_def
        split: if_splits list.splits)
  from try_block_outcome [OF tb] obtain evs where
    evs: "h1 = h0 @ evs" "list_all (\<lambda>e. \<not> is_draining_call e) evs" by blast
  from finally_block_cases [OF fin]
  have h3: "h3 = h1 @ [Print ''>--- Program interrupted by user ---'',
      Close, CloseHydraulicAnalysis, Unload]"
    by (simp add: draining_calls_def)
  from exit_status_zero_if [OF parse tb fin]
  have run: "main fuel argv env t = (Raise (SystemExit 0), h3)" .
  from run show "fst (main fuel argv env t) = Raise (SystemExit 0)" by simp
  from run h3 show "Print ''>--- Program interrupted by user ---'' \<in> set (snd (main fuel argv env t))"
    by simp
  from run h3 h0 evs(1) count_no_draining [OF evs(2)]
  show "count_list (snd (main fuel argv env t)) Close = count_list t Close + 1"
    "count_list (snd (main fuel argv env t)) CloseHydraulicAnalysis =
      count_list t CloseHydraulicAnalysis + 1"
    "count_list (snd (main fuel argv env t)) Unload = count_list t Unload + 1"
    by simp_all
qed


lemma finally_block_interrupted:
  "finally_block interrupted True True
     (first_cycle_trace @ [Print ''>--- Program interrupted by user ---'']) =
   (Return (),
    first_cycle_trace @
    [Print ''>--- Program interrupted by user ---'', Close, CloseHydraulicAnalysis, Unload])"
  by (simp add: finally_block_def bind_def perform_def interrupted_def scenario_a_def)

text \<open>Scenario C: an interrupt in the sleep that ends the first cycle.\<close>

theorem exit_status_zero_iff_interrupt_and_clean_draining_witness:
  "exit_status (fst (main 1 [''epanet.py'', ''network.inp''] interrupted [])) = Some 0 \<and>
   Print ''>--- Program interrupted by user ---'' \<in>
     set (snd (main 1 [''epanet.py'', ''network.inp''] interrupted [])) \<and>
   count_list (snd (main 1 [''epanet.py'', ''network.inp''] interrupted [])) Close = 1 \<and>
   count_list (snd (main 1 [''epanet.py'', ''network.inp''] interrupted []))
     CloseHydraulicAnalysis = 1 \<and>
   count_list (snd (main 1 [''epanet.py'', ''network.inp''] interrupted [])) Unload = 1"
proof -
  let ?run = "main 1 [''epanet.py'', ''network.inp''] interrupted []"
  from exit_status_zero_iff_interrupt_and_clean_draining
    [where fuel = 1 and argv = "[''epanet.py'', ''network.inp'']" and env = interrupted
       and t = "[]" and nf = "''network.inp''" and ?h0.0 = "[]" and ?h1.0 = first_cycle_trace
       and ?h3.0 = "first_cycle_trace @
         [Print ''>--- Program interrupted by user ---'', Close, CloseHydraulicAnalysis, Unload]"]
  have "parse_arguments [''epanet.py'', ''network.inp''] [] = (Return ''network.inp'', []) \<and>
      try_block 1 interrupted ''network.inp'' [] =
        ((Raise KeyboardInterrupt, True, True), first_cycle_trace) \<and>
      finally_block interrupted True True
        (first_cycle_trace @ [Print ''>--- Program interrupted by user ---'']) =
        (Return (), first_cycle_trace @
          [Print ''>--- Program interrupted by user ---'', Close, CloseHydraulicAnalysis, Unload]) \<longrightarrow>
      fst ?run = Raise (SystemExit 0) \<and>
      Print ''>--- Program interrupted by user ---'' \<in> set (snd ?run) \<and>
      count_list (snd ?run) Close = count_list [] Close + 1 \<and>
      count_list (snd ?run) CloseHydraulicAnalysis = count_list [] CloseHydraulicAnalysis + 1 \<and>
      count_list (snd ?run) Unload = count_list [] Unload + 1"
    by (elim conjE)
  with parse_arguments_ok [of "[]"] try_block_interrupted finally_block_interrupted
  have "fst ?run = Raise (SystemExit 0) \<and>
      Print ''>--- Program interrupted by user ---'' \<in> set (snd ?run) \<and>
      count_list (snd ?run) Close = count_list [] Close + 1 \<and>
      count_list (snd ?run) CloseHydraulicAnalysis = count_list [] CloseHydraulicAnalysis + 1 \<and>
      count_list (snd ?run) Unload = count_list [] Unload + 1"
    by blast
  then show ?thesis by simp
qed

text \<open>
  Claim C8 says that the exit status is 0 whenever the shutdown is user-initiated, and
  that on an interrupt between cycles the analysis teardown is invoked exactly once. When
  \<open>close\<close> raises after the interrupt, the run ends with status 1 and
  \<open>closeHydraulicAnalysis\<close> is never called.
\<close>

theorem interrupt_with_failing_close_counterexample:
  "try_block 1 interrupted_close_fails ''network.inp'' [] =
     ((Raise KeyboardInterrupt, True, True), first_cycle_trace) \<and>
   main 1 [''epanet.py'', ''network.inp''] interrupted_close_fails [] =
     (Raise (Exception ''connection reset''),
      first_cycle_trace @ [Print ''>--- Program interrupted by user ---'', Close]) \<and>
   exit_status (Raise (Exception ''connection reset'')) = Some 1 \<and>
   count_list (first_cycle_trace @ [Print ''>--- Program interrupted by user ---'', Close])
     CloseHydraulicAnalysis = 0"
proof -
  have fin: "finally_block interrupted_close_fails True True
      (first_cycle_trace @ [Print ''>--- Program interrupted by user ---'']) =
    (Raise (Exception ''connection reset''),
     first_cycle_trace @ [Print ''>--- Program interrupted by user ---'', Close])"
    by (simp add: finally_block_def bind_def perform_def interrupted_close_fails_def
        scenario_a_def)
  have ne: "Raise KeyboardInterrupt \<noteq> (OutOfFuel :: unit outcome)" by simp
  from main_after_try_block
    [OF parse_arguments_ok try_block_interrupted_close_fails ne handlers_interrupt fin]
  have "main 1 [''epanet.py'', ''network.inp''] interrupted_close_fails [] =
     (Raise (Exception ''connection reset''),
      first_cycle_trace @ [Print ''>--- Program interrupted by user ---'', Close])"
    by simp
  moreover have "count_list
      (first_cycle_trace @ [Print ''>--- Program interrupted by user ---'', Close])
      CloseHydraulicAnalysis = 0"
    by (simp add: first_cycle_trace_def)
  ultimately show ?thesis
    using try_block_interrupted_close_fails by simp
qed

end
